theory Spec2Isabelle
  imports Main "HOL-Library.Word"
begin

section \<open>JavaScript values used by the two routes\<close>

text \<open>
  A string is the list of the bytes of its UTF-8 encoding, in which a surrogate code unit
  that is not part of a pair is written as the three bytes \<open>ED\<close>, \<open>A0..BF\<close>, \<open>80..BF\<close>
  (a well-formed string has no such sequence). A Buffer is a list of bytes. A thrown value
  is either an \<open>Error\<close> instance with its message or some other value; both routes read
  the message through \<open>err instanceof Error ? err.message : d\<close>.
\<close>

type_synonym bytes = "8 word list"

datatype js_exn = JsError string | JsThrown

fun message_or :: "string \<Rightarrow> js_exn \<Rightarrow> string" where
  "message_or d (JsError m) = m"
| "message_or d JsThrown = d"

text \<open>\<open>String(v)\<close> of a cell read through a key: an absent key reads \<open>undefined\<close>.\<close>

fun js_String :: "string option \<Rightarrow> string" where
  "js_String None = ''undefined''"
| "js_String (Some s) = s"

text \<open>Truthiness of an optional string: \<open>undefined\<close> and the empty string are falsy.\<close>

fun truthy :: "string option \<Rightarrow> bool" where
  "truthy None = False"
| "truthy (Some s) = (s \<noteq> [])"

fun startsWith :: "string \<Rightarrow> string \<Rightarrow> bool" where
  "startsWith s [] = True"
| "startsWith [] (p # ps) = False"
| "startsWith (c # cs) (p # ps) = (c = p \<and> startsWith cs ps)"

fun str_includes :: "string \<Rightarrow> string \<Rightarrow> bool" where
  "str_includes [] sub = (sub = [])"
| "str_includes (c # cs) sub = (startsWith (c # cs) sub \<or> str_includes cs sub)"

text \<open>\<open>n.toString()\<close> of a non-negative integer: its decimal digits.\<close>

definition digit_char :: "nat \<Rightarrow> char" where
  "digit_char d = ''0123456789'' ! d"

fun toString :: "nat \<Rightarrow> string" where
  "toString n = (if n < 10 then [digit_char n] else toString (n div 10) @ [digit_char (n mod 10)])"

declare toString.simps [simp del]

text \<open>The character classes of the source's regular expressions.\<close>

definition slash :: char where "slash = CHR 0x2F"
definition backslash :: char where "backslash = CHR 0x5C"
definition dquote :: char where "dquote = CHR 0x22"

definition is_alnum :: "char \<Rightarrow> bool" where
  "is_alnum c = (let n = (of_char c :: nat) in
     (48 \<le> n \<and> n \<le> 57) \<or> (65 \<le> n \<and> n \<le> 90) \<or> (97 \<le> n \<and> n \<le> 122))"

text \<open>\<open>s.replace(/[/\\]/g, " ")\<close>\<close>

definition replace_slashes :: "string \<Rightarrow> string" where
  "replace_slashes s = map (\<lambda>c. if c = slash \<or> c = backslash then CHR '' '' else c) s"

text \<open>\<open>s.replace(/[^a-zA-Z0-9]/g, "")\<close>\<close>

definition strip_non_alnum :: "string \<Rightarrow> string" where
  "strip_non_alnum s = filter is_alnum s"

subsection \<open>encodeURIComponent\<close>

text \<open>
  On a string with a lone surrogate \<open>encodeURIComponent\<close> throws a \<open>URIError\<close> with the
  message \<open>URI malformed\<close>. Otherwise every byte outside the unreserved set
  \<open>A-Z a-z 0-9 - _ . ! ~ * ' ( )\<close> becomes \<open>%HH\<close> with upper-case hexadecimal digits.
\<close>

fun has_lone_surrogate :: "string \<Rightarrow> bool" where
  "has_lone_surrogate (c # d # cs) =
     (((of_char c :: nat) = 0xED \<and> 0xA0 \<le> (of_char d :: nat) \<and> (of_char d :: nat) \<le> 0xBF)
      \<or> has_lone_surrogate (d # cs))"
| "has_lone_surrogate cs = False"

definition hex_char :: "nat \<Rightarrow> char" where
  "hex_char d = ''0123456789ABCDEF'' ! d"

definition uri_unreserved :: "char \<Rightarrow> bool" where
  "uri_unreserved c = (is_alnum c \<or> c \<in> set ''-_.!~*()'' \<or> c = CHR 0x27)"

definition percent_encode :: "string \<Rightarrow> string" where
  "percent_encode s = concat (map (\<lambda>c. if uri_unreserved c then [c]
       else [CHR ''%'', hex_char (of_char c div 16), hex_char (of_char c mod 16)]) s)"

definition encodeURIComponent :: "string \<Rightarrow> js_exn + string" where
  "encodeURIComponent s =
     (if has_lone_surrogate s then Inl (JsError ''URI malformed'') else Inr (percent_encode s))"

subsection \<open>path.join (POSIX)\<close>

text \<open>
  Node's \<open>path.join\<close> joins the non-empty arguments with \<open>/\<close> and normalizes the result:
  empty and \<open>.\<close> segments are dropped, a \<open>..\<close> segment removes the segment before it
  (at the root of an absolute path it is dropped, at the start of a relative path it is kept),
  and a trailing separator is preserved.
\<close>

fun split_on :: "char \<Rightarrow> string \<Rightarrow> string list" where
  "split_on sep [] = [[]]"
| "split_on sep (c # cs) =
     (if c = sep then [] # split_on sep cs
      else (case split_on sep cs of [] \<Rightarrow> [[c]] | seg # segs \<Rightarrow> (c # seg) # segs))"

fun join_with :: "char \<Rightarrow> string list \<Rightarrow> string" where
  "join_with sep [] = []"
| "join_with sep [s] = s"
| "join_with sep (s # t # ss) = s @ sep # join_with sep (t # ss)"

definition normalize_step :: "bool \<Rightarrow> string list \<Rightarrow> string \<Rightarrow> string list" where
  "normalize_step allowAboveRoot res seg =
     (if seg = [] \<or> seg = ''.'' then res
      else if seg = ''..'' then
        (if res \<noteq> [] \<and> last res \<noteq> ''..'' then butlast res
         else if allowAboveRoot then res @ [''..''] else res)
      else res @ [seg])"

definition normalizeString :: "string \<Rightarrow> bool \<Rightarrow> string" where
  "normalizeString path allowAboveRoot =
     join_with slash (foldl (normalize_step allowAboveRoot) [] (split_on slash path))"

definition normalize :: "string \<Rightarrow> string" where
  "normalize path =
     (if path = [] then ''.''
      else
        let isAbsolute = (hd path = slash);
            trailingSeparator = (last path = slash);
            p = normalizeString path (\<not> isAbsolute)
        in if p = [] then (if isAbsolute then ''/'' else if trailingSeparator then ''./'' else ''.'')
           else (if isAbsolute then ''/'' else '''') @ p @ (if trailingSeparator then ''/'' else ''''))"

definition path_join :: "string list \<Rightarrow> string" where
  "path_join args =
     (let parts = filter (\<lambda>a. a \<noteq> []) args
      in if parts = [] then ''.'' else normalize (join_with slash parts))"

section \<open>Phrase resolution: searchBingImages\<close>

text \<open>
  The search surface and the markup parser are outside the repository. One answer of
  \<open>axios.get\<close> followed by \<open>cheerio.load\<close> is a page: the \<open>m\<close> attribute of every
  \<open>a.iusc\<close> element, the \<open>src\<close> and \<open>data-src\<close> attributes of every \<open>img.mimg\<close>
  element (both in document order), and the raw text \<open>response.data\<close>.
\<close>

record page =
  iusc_m :: "string option list"
  mimg_src :: "(string option \<times> string option) list"
  page_data :: string

record http_response =
  content_type :: "string option"
  response_data :: bytes

text \<open>
  What the archive run does to the promise the route awaits. The archiver's \<open>error\<close>
  event rejects it. The \<open>close\<close> event of the output stream resolves it, and the archive
  file is then absent (\<open>None\<close>) or present with a size. An \<open>error\<close> event of the output
  stream itself has no listener: neither of the two events the promise waits for arrives,
  and the promise never settles.
\<close>

datatype archive_outcome =
    ArchiveError js_exn
  | OutputError js_exn
  | OutputClosed "nat option"

text \<open>
  The environment of one request. Network answers are indexed by the row (and the
  candidate) they are made for, so the same phrase or locator may be answered differently
  each time. \<open>json_murl m\<close> is \<open>JSON.parse(m).murl\<close>: \<open>Inl\<close> when that throws.
  \<open>writeFileSync\<close> returns the exception it throws, if any. Creating a directory and
  writing to the response stream are taken to succeed.
\<close>

record env =
  os_tmpdir :: string
  now_dir :: nat
  now_zip :: nat
  axios_get_page :: "nat \<Rightarrow> string \<Rightarrow> js_exn + page"
  json_murl :: "string \<Rightarrow> js_exn + string option"
  axios_get_image :: "nat \<Rightarrow> nat \<Rightarrow> string \<Rightarrow> js_exn + http_response"
  writeFileSync :: "nat \<Rightarrow> string \<Rightarrow> bytes \<Rightarrow> js_exn option"
  archive_run :: archive_outcome
  rmSync :: "js_exn option"

text \<open>Tier 1: the \<open>murl\<close> field of the JSON in the \<open>m\<close> attribute of one element.\<close>

fun tier1_element :: "env \<Rightarrow> string option \<Rightarrow> string list" where
  "tier1_element env None = []"
| "tier1_element env (Some m) =
     (if m = [] then []
      else (case json_murl env m of
              Inl err \<Rightarrow> []
            | Inr None \<Rightarrow> []
            | Inr (Some murl) \<Rightarrow> if murl = [] then [] else [murl]))"

text \<open>Tier 2: \<open>src || data-src\<close> of one image element, kept when it starts with \<open>http\<close>.\<close>

fun tier2_element :: "string option \<times> string option \<Rightarrow> string list" where
  "tier2_element (src, data_src) =
     (case (if truthy src then src else data_src) of
        None \<Rightarrow> []
      | Some u \<Rightarrow> if u \<noteq> [] \<and> startsWith u ''http'' then [u] else [])"

text \<open>
  Tier 3: the global scan of the raw text for the quoted key \<open>murl\<close>, a colon and a quoted
  value \<open>https?://[^"]+\<close>. \<open>match_murl s\<close> is a match starting at the head of \<open>s\<close>: the
  captured value and the text after the match.
\<close>

fun strip_prefix :: "string \<Rightarrow> string \<Rightarrow> string option" where
  "strip_prefix [] s = Some s"
| "strip_prefix (p # ps) [] = None"
| "strip_prefix (p # ps) (c # cs) = (if p = c then strip_prefix ps cs else None)"

definition murl_key :: string where
  "murl_key = dquote # ''murl'' @ [dquote, CHR '':'', dquote]"

definition match_scheme :: "string \<Rightarrow> (string \<times> string) option" where
  "match_scheme r =
     (case strip_prefix ''https://'' r of
        Some r' \<Rightarrow> Some (''https://'', r')
      | None \<Rightarrow> (case strip_prefix ''http://'' r of
                    Some r' \<Rightarrow> Some (''http://'', r')
                  | None \<Rightarrow> None))"

definition match_murl :: "string \<Rightarrow> (string \<times> string) option" where
  "match_murl s =
     (case strip_prefix murl_key s of
        None \<Rightarrow> None
      | Some r \<Rightarrow>
          (case match_scheme r of
             None \<Rightarrow> None
           | Some (scheme, r2) \<Rightarrow>
               let u = takeWhile (\<lambda>c. c \<noteq> dquote) r2;
                   r3 = dropWhile (\<lambda>c. c \<noteq> dquote) r2
               in if u = [] \<or> r3 = [] then None else Some (scheme @ u, tl r3)))"

lemma strip_prefix_length: "strip_prefix p s = Some r \<Longrightarrow> length r + length p = length s"
  by (induction p s rule: strip_prefix.induct) (auto split: if_splits)

lemma match_murl_shorter: "match_murl s = Some (u, rest) \<Longrightarrow> length rest < length s"
proof -
  assume m: "match_murl s = Some (u, rest)"
  then obtain r where r: "strip_prefix murl_key s = Some r"
    by (auto simp: match_murl_def split: option.splits)
  with m obtain scheme r2 where s2: "match_scheme r = Some (scheme, r2)"
    by (auto simp: match_murl_def split: option.splits)
  have l1: "length r \<le> length s"
    using strip_prefix_length [OF r] by simp
  have l2: "length r2 \<le> length r"
    using s2 by (auto simp: match_scheme_def split: option.splits dest: strip_prefix_length)
  have rest: "rest = tl (dropWhile (\<lambda>c. c \<noteq> dquote) r2)"
    and ne: "dropWhile (\<lambda>c. c \<noteq> dquote) r2 \<noteq> []"
    using m r s2 by (auto simp: match_murl_def Let_def split: if_splits)
  have "length (dropWhile (\<lambda>c. c \<noteq> dquote) r2) \<le> length r2"
    by (rule length_dropWhile_le)
  with ne rest have "length rest < length r2"
    by (cases "dropWhile (\<lambda>c. c \<noteq> dquote) r2") auto
  with l1 l2 show ?thesis by simp
qed

function regex_murls :: "string \<Rightarrow> string list" where
  "regex_murls s =
     (if s = [] then []
      else (case match_murl s of
              Some (u, rest) \<Rightarrow> u # regex_murls rest
            | None \<Rightarrow> regex_murls (tl s)))"
  by pat_completeness auto
termination
  by (relation "measure length") (auto simp: match_murl_shorter)

declare regex_murls.simps [simp del]

text \<open>
  Every occurrence of the six characters backslash, \<open>u002f\<close> in a captured value
  becomes a slash.
\<close>

fun unescape_slashes :: "string \<Rightarrow> string" where
  "unescape_slashes [] = []"
| "unescape_slashes (c # cs) =
     (if startsWith (c # cs) (backslash # ''u002f'') then slash # unescape_slashes (drop 5 cs)
      else c # unescape_slashes cs)"

definition tier1 :: "env \<Rightarrow> page \<Rightarrow> string list" where
  "tier1 env pg = concat (map (tier1_element env) (iusc_m pg))"

definition tier2 :: "page \<Rightarrow> string list" where
  "tier2 pg = concat (map tier2_element (mimg_src pg))"

definition tier3 :: "page \<Rightarrow> string list" where
  "tier3 pg = map unescape_slashes (regex_murls (page_data pg))"

definition search_url :: "string \<Rightarrow> string" where
  "search_url searchQuery =
     ''https://www.bing.com/images/search?q='' @ searchQuery @ ''&first=1''"

text \<open>
  The query is encoded before the \<open>try\<close> block is entered, so an exception of the
  encoding leaves the function; inside the block every failure of the request gives the
  empty list.
\<close>

definition search_try :: "env \<Rightarrow> nat \<Rightarrow> string \<Rightarrow> string list" where
  "search_try env i url =
     (case axios_get_page env i url of
        Inl err \<Rightarrow> []
      | Inr pg \<Rightarrow>
          let imageUrls1 = tier1 env pg;
              imageUrls2 = (if imageUrls1 = [] then imageUrls1 @ tier2 pg else imageUrls1);
              imageUrls3 = (if imageUrls2 = [] then imageUrls2 @ tier3 pg else imageUrls2)
          in take 5 imageUrls3)"

definition searchBingImages :: "env \<Rightarrow> nat \<Rightarrow> string \<Rightarrow> js_exn + string list" where
  "searchBingImages env i query =
     (case encodeURIComponent query of
        Inl err \<Rightarrow> Inl err
      | Inr searchQuery \<Rightarrow> Inr (search_try env i (search_url searchQuery)))"

section \<open>Image fetching: downloadImage\<close>

definition extension_of :: "string \<Rightarrow> string" where
  "extension_of contentType =
     (if str_includes contentType ''png'' then ''.png''
      else if str_includes contentType ''gif'' then ''.gif''
      else if str_includes contentType ''webp'' then ''.webp''
      else if str_includes contentType ''jpeg'' \<or> str_includes contentType ''jpg'' then ''.jpg''
      else ''.jpg'')"

definition downloadImage :: "env \<Rightarrow> nat \<Rightarrow> nat \<Rightarrow> string \<Rightarrow> (bytes \<times> string) option" where
  "downloadImage env i j url =
     (case axios_get_image env i j url of
        Inl err \<Rightarrow> None
      | Inr response \<Rightarrow>
          let contentType =
                (if truthy (content_type response) then js_String (content_type response) else []);
              extension = extension_of contentType;
              buffer = response_data response
          in if length buffer < 1000 then None else Some (buffer, extension))"

section \<open>The processing route: POST\<close>

text \<open>
  A parsed row has a key or lacks it (\<open>"id" in row\<close>); a present cell is read through
  \<open>String\<close>. The upload is what \<open>formData\<close>, \<open>XLSX.read\<close> and \<open>sheet_to_json\<close> make of
  the request: no file, an exception, or the rows of the first sheet.
\<close>

record ExcelRow =
  row_id :: "string option"
  row_image_name :: "string option"

datatype upload = NoFile | Unreadable js_exn | Table "ExcelRow list"

datatype status = pending | downloading | success | failed

record ProgressItem =
  item_id :: string
  image_name :: string
  status :: status
  error :: "string option"

datatype frame = Progress "ProgressItem list" | Complete string | Error string

text \<open>
  The observable run of a request is the sequence of its effects, in program order: frames
  written to the response stream, calls of \<open>writer.close\<close>, directory creation, searches,
  fetches, file writes, pauses (in milliseconds), the archive run and the removal of the
  working directory. An event records the call; whether a file write or a removal returned
  or threw is read from the environment.
\<close>

datatype event =
    Send frame
  | Close
  | Mkdir string
  | Search string
  | Fetch string
  | WriteFile string bytes
  | Pause nat
  | Archive string string
  | Rm string

definition initial_item :: "ExcelRow \<Rightarrow> ProgressItem" where
  "initial_item row =
     \<lparr>item_id = js_String (row_id row), image_name = js_String (row_image_name row),
      status = pending, error = None\<rparr>"

fun update_at :: "nat \<Rightarrow> ('a \<Rightarrow> 'a) \<Rightarrow> 'a list \<Rightarrow> 'a list" where
  "update_at i f [] = []"
| "update_at 0 f (x # xs) = f x # xs"
| "update_at (Suc i) f (x # xs) = x # update_at i f xs"

definition set_status :: "nat \<Rightarrow> status \<Rightarrow> ProgressItem list \<Rightarrow> ProgressItem list" where
  "set_status i st progressItems = update_at i (\<lambda>it. it\<lparr>status := st\<rparr>) progressItems"

definition set_failed :: "nat \<Rightarrow> string \<Rightarrow> ProgressItem list \<Rightarrow> ProgressItem list" where
  "set_failed i cause progressItems =
     update_at i (\<lambda>it. it\<lparr>status := failed, error := Some cause\<rparr>) progressItems"

text \<open>
  The body of the row's \<open>try\<close> block ends in one of four ways: the search found nothing
  (the \<open>continue\<close> branch), a candidate was written, every candidate was exhausted, or
  an exception was thrown.
\<close>

datatype attempt = NoImages | Downloaded | Exhausted | Threw js_exn

fun try_candidates ::
  "env \<Rightarrow> string \<Rightarrow> nat \<Rightarrow> string \<Rightarrow> nat \<Rightarrow> string list \<Rightarrow> attempt \<times> event list" where
  "try_candidates env tempDir i rowId j [] = (Exhausted, [])"
| "try_candidates env tempDir i rowId j (url # urls) =
     (case downloadImage env i j url of
        None \<Rightarrow>
          (let (r, evs) = try_candidates env tempDir i rowId (Suc j) urls
           in (r, Fetch url # evs))
      | Some (buffer, extension) \<Rightarrow>
          (let filePath = path_join [tempDir, rowId @ extension]
           in (case writeFileSync env i filePath buffer of
                 Some err \<Rightarrow> (Threw err, [Fetch url, WriteFile filePath buffer])
               | None \<Rightarrow> (Downloaded, [Fetch url, WriteFile filePath buffer]))))"

definition attempt_row ::
  "env \<Rightarrow> string \<Rightarrow> nat \<Rightarrow> string \<Rightarrow> string \<Rightarrow> attempt \<times> event list" where
  "attempt_row env tempDir i rowId imageName =
     (case searchBingImages env i imageName of
        Inl err \<Rightarrow> (Threw err, [Search imageName])
      | Inr imageUrls \<Rightarrow>
          if imageUrls = [] then (NoImages, [Search imageName])
          else (let (r, evs) = try_candidates env tempDir i rowId 0 imageUrls
                in (r, Search imageName # evs)))"

text \<open>One iteration of the row loop: the new status array and the effects.\<close>

definition process_row ::
  "env \<Rightarrow> string \<Rightarrow> nat \<Rightarrow> ExcelRow \<Rightarrow> ProgressItem list \<Rightarrow> ProgressItem list \<times> event list" where
  "process_row env tempDir i row progressItems =
     (let rowId = js_String (row_id row);
          imageName = replace_slashes (js_String (row_image_name row));
          items1 = set_status i downloading progressItems;
          (r, evs) = attempt_row env tempDir i rowId imageName
      in case r of
           NoImages \<Rightarrow>
             (let items2 = set_failed i ''No images found'' items1
              in (items2, Send (Progress items1) # evs @ [Send (Progress items2)]))
         | Downloaded \<Rightarrow>
             (let items2 = set_status i success items1
              in (items2, Send (Progress items1) # evs @ [Send (Progress items2), Pause 500]))
         | Exhausted \<Rightarrow>
             (let items2 = set_failed i ''Failed to download image'' items1
              in (items2, Send (Progress items1) # evs @ [Send (Progress items2), Pause 500]))
         | Threw err \<Rightarrow>
             (let items2 = set_failed i (message_or ''Unknown error'' err) items1
              in (items2, Send (Progress items1) # evs @ [Send (Progress items2), Pause 500])))"

fun rows_loop ::
  "env \<Rightarrow> string \<Rightarrow> nat \<Rightarrow> ExcelRow list \<Rightarrow> ProgressItem list \<Rightarrow> ProgressItem list \<times> event list" where
  "rows_loop env tempDir i [] progressItems = (progressItems, [])"
| "rows_loop env tempDir i (row # rows) progressItems =
     (let (items1, evs1) = process_row env tempDir i row progressItems;
          (items2, evs2) = rows_loop env tempDir (Suc i) rows items1
      in (items2, evs1 @ evs2))"

text \<open>
  How a block of the request ends: it returns, an exception leaves it, or it waits for
  ever on a promise that never settles.
\<close>

datatype completion = Returned | Thrown js_exn | Pending

text \<open>
  Archive construction, the check of the result, and the cleanup whose exception is
  ignored. An exception of the archive run leaves this block at once; on an error of the
  output stream the block never gets past the promise.
\<close>

definition cleanup :: "env \<Rightarrow> string \<Rightarrow> event list" where
  "cleanup env tempDir = (case rmSync env of None \<Rightarrow> [Rm tempDir] | Some err \<Rightarrow> [Rm tempDir])"

definition zip_dir :: "string \<Rightarrow> string" where
  "zip_dir tmp = path_join [tmp, ''image-downloader-zips'']"

definition zip_path :: "string \<Rightarrow> string \<Rightarrow> string" where
  "zip_path tmp fileId = path_join [zip_dir tmp, ''images-'' @ fileId @ ''.zip'']"

definition archive_phase :: "env \<Rightarrow> string \<Rightarrow> event list \<times> completion" where
  "archive_phase env tempDir =
     (let fileId = toString (now_zip env);
          zipDir = zip_dir (os_tmpdir env);
          finalZipPath = zip_path (os_tmpdir env) fileId
      in case archive_run env of
           ArchiveError err \<Rightarrow> ([Mkdir zipDir, Archive tempDir finalZipPath], Thrown err)
         | OutputError err \<Rightarrow> ([Mkdir zipDir, Archive tempDir finalZipPath], Pending)
         | OutputClosed stats \<Rightarrow>
             ([Mkdir zipDir, Archive tempDir finalZipPath]
                @ [Send (case stats of
                           Some sz \<Rightarrow> Complete (''/api/download?id='' @ fileId)
                         | None \<Rightarrow> Error ''Failed to create ZIP file'')]
                @ cleanup env tempDir, Returned))"

definition temp_dir :: "env \<Rightarrow> string" where
  "temp_dir env = path_join [os_tmpdir env, ''image-download-'' @ toString (now_dir env)]"

definition columns_message :: string where
  "columns_message =
     ''Excel file must have '' @ dquote # ''id'' @ dquote # '' and '' @ dquote # ''image_name''
       @ dquote # '' columns''"

text \<open>The \<open>try\<close> block of the request: its effects and how it ends.\<close>

definition run_request :: "env \<Rightarrow> upload \<Rightarrow> event list \<times> completion" where
  "run_request env req =
     (case req of
        Unreadable err \<Rightarrow> ([], Thrown err)
      | NoFile \<Rightarrow> ([Send (Error ''No file uploaded''), Close], Returned)
      | Table rows \<Rightarrow>
          (case rows of
             [] \<Rightarrow> ([Send (Error ''Excel file is empty''), Close], Returned)
           | firstRow # _ \<Rightarrow>
               if row_id firstRow = None \<or> row_image_name firstRow = None
               then ([Send (Error columns_message), Close], Returned)
               else
                 (let progressItems = map initial_item rows;
                      tempDir = temp_dir env;
                      (items, evs) = rows_loop env tempDir 0 rows progressItems;
                      (aevs, done) = archive_phase env tempDir
                  in (Send (Progress progressItems) # Mkdir tempDir # evs @ aevs, done))))"

text \<open>
  \<open>catch\<close> reports the exception in an error frame; \<open>finally\<close> closes the writer. A
  block that never ends reaches neither.
\<close>

fun finish :: "completion \<Rightarrow> event list" where
  "finish Returned = [Close]"
| "finish (Thrown err) = [Send (Error (message_or ''An error occurred'' err)), Close]"
| "finish Pending = []"

definition POST :: "env \<Rightarrow> upload \<Rightarrow> event list" where
  "POST env req = (let (evs, done) = run_request env req in evs @ finish done)"

section \<open>The retrieval route: GET\<close>

text \<open>
  The host's files are a map from paths to contents. \<open>unlink_error p\<close> is the exception
  the host raises when asked to remove \<open>p\<close>, if it refuses.
\<close>

record host =
  host_tmpdir :: string
  files :: "string \<rightharpoonup> bytes"
  unlink_error :: "string \<Rightarrow> js_exn option"

datatype response = JsonResponse nat string | FileResponse bytes "(string \<times> string) list"

definition unlinkSync :: "host \<Rightarrow> string \<Rightarrow> js_exn + host" where
  "unlinkSync h p =
     (case files h p of
        None \<Rightarrow> Inl (JsError ''ENOENT'')
      | Some b \<Rightarrow> (case unlink_error h p of
                     Some err \<Rightarrow> Inl err
                   | None \<Rightarrow> Inr (h\<lparr>files := (files h)(p := None)\<rparr>)))"

definition zip_headers :: "bytes \<Rightarrow> (string \<times> string) list" where
  "zip_headers zipBuffer =
     [(''Content-Type'', ''application/zip''),
      (''Content-Disposition'', ''attachment; filename='' @ dquote # ''images.zip'' @ [dquote]),
      (''Content-Length'', toString (length zipBuffer))]"

definition GET :: "host \<Rightarrow> string option \<Rightarrow> response \<times> host" where
  "GET h fileId =
     (case fileId of
        None \<Rightarrow> (JsonResponse 400 ''Missing file ID'', h)
      | Some fid \<Rightarrow>
          if fid = [] then (JsonResponse 400 ''Missing file ID'', h)
          else
            (let safeId = strip_non_alnum fid;
                 zipPath = zip_path (host_tmpdir h) safeId
             in case files h zipPath of
                  None \<Rightarrow> (JsonResponse 404 ''File not found. It may have expired.'', h)
                | Some zipBuffer \<Rightarrow>
                    (let h' = (case unlinkSync h zipPath of Inl err \<Rightarrow> h | Inr h2 \<Rightarrow> h2)
                     in (FileResponse zipBuffer (zip_headers zipBuffer), h'))))"

section \<open>Observations on a run\<close>

fun frame_of :: "event \<Rightarrow> frame list" where
  "frame_of (Send f) = [f]"
| "frame_of e = []"

definition frames_of :: "event list \<Rightarrow> frame list" where
  "frames_of evs = concat (map frame_of evs)"

fun snapshot_of :: "event \<Rightarrow> ProgressItem list list" where
  "snapshot_of (Send (Progress progressItems)) = [progressItems]"
| "snapshot_of e = []"

definition snapshots_of :: "event list \<Rightarrow> ProgressItem list list" where
  "snapshots_of evs = concat (map snapshot_of evs)"

text \<open>Row processing and file-system work: every effect but stream writes and closes.\<close>

fun is_work :: "event \<Rightarrow> bool" where
  "is_work (Send f) = False"
| "is_work Close = False"
| "is_work e = True"

definition work_of :: "event list \<Rightarrow> event list" where
  "work_of evs = filter is_work evs"

fun fetch_of :: "event \<Rightarrow> string list" where
  "fetch_of (Fetch url) = [url]"
| "fetch_of e = []"

definition fetches_of :: "event list \<Rightarrow> string list" where
  "fetches_of evs = concat (map fetch_of evs)"

fun write_of :: "event \<Rightarrow> (string \<times> bytes) list" where
  "write_of (WriteFile p b) = [(p, b)]"
| "write_of e = []"

definition writes_of :: "event list \<Rightarrow> (string \<times> bytes) list" where
  "writes_of evs = concat (map write_of evs)"

fun search_of :: "event \<Rightarrow> string list" where
  "search_of (Search q) = [q]"
| "search_of e = []"

definition searches_of :: "event list \<Rightarrow> string list" where
  "searches_of evs = concat (map search_of evs)"

text \<open>
  A table passes the route's validation when it has a first row and that row has both keys.
\<close>

fun valid_table :: "ExcelRow list \<Rightarrow> bool" where
  "valid_table [] = False"
| "valid_table (firstRow # rows) = (row_id firstRow \<noteq> None \<and> row_image_name firstRow \<noteq> None)"

text \<open>
  Names for what one iteration of the row loop reads and leaves: the phrase searched for,
  the candidates found, the row's entry after the iteration, the iteration's effects, and
  the path of the file written for an extension.
\<close>

definition row_phrase :: "ExcelRow \<Rightarrow> string" where
  "row_phrase row = replace_slashes (js_String (row_image_name row))"

definition row_candidates :: "env \<Rightarrow> nat \<Rightarrow> ExcelRow \<Rightarrow> js_exn + string list" where
  "row_candidates env i row = searchBingImages env i (row_phrase row)"

definition row_after :: "env \<Rightarrow> string \<Rightarrow> nat \<Rightarrow> ExcelRow \<Rightarrow> ProgressItem list \<Rightarrow> ProgressItem" where
  "row_after env tempDir i row progressItems = fst (process_row env tempDir i row progressItems) ! i"

definition row_effects :: "env \<Rightarrow> string \<Rightarrow> nat \<Rightarrow> ExcelRow \<Rightarrow> ProgressItem list \<Rightarrow> event list" where
  "row_effects env tempDir i row progressItems = snd (process_row env tempDir i row progressItems)"

definition row_file :: "string \<Rightarrow> ExcelRow \<Rightarrow> string \<Rightarrow> string" where
  "row_file tempDir row extension = path_join [tempDir, js_String (row_id row) @ extension]"

section \<open>Concrete environments and inputs\<close>

definition big_image :: bytes where
  "big_image = replicate 1000 0"

definition small_image :: bytes where
  "small_image = replicate 10 0"

text \<open>
  Three pages, each given by its raw text and by what the markup parser finds in it. The
  value of an \<open>m\<close> attribute is JSON text, written with \<open>&quot;\<close> in the markup. The
  first page has eight result anchors of which six carry a usable \<open>murl\<close>; the second has
  no usable anchor but two usable image elements; the third has neither, but one \<open>murl\<close>
  in an inline script.
\<close>

definition m_json :: "string \<Rightarrow> string" where
  "m_json u = ''{'' @ murl_key @ u @ dquote # ''}''"

definition anchor_html :: "string \<Rightarrow> string" where
  "anchor_html m = ''<a class='' @ dquote # ''iusc'' @ dquote # '' m='' @ dquote # m @ dquote # ''></a>''"

definition m_html :: "string \<Rightarrow> string" where
  "m_html u = ''{&quot;murl&quot;:&quot;'' @ u @ ''&quot;}''"

definition img_html :: "string \<Rightarrow> string \<Rightarrow> string" where
  "img_html k v = ''<img class='' @ dquote # ''mimg'' @ dquote # '' '' @ k @ ''='' @ dquote # v @ dquote # ''>''"

definition page_tier1 :: page where
  "page_tier1 =
     \<lparr>iusc_m = [Some (m_json ''http://img/m1''), None, Some ''bad'', Some (m_json ''http://img/m2''),
                Some (m_json ''http://img/m3''), Some (m_json ''http://img/m4''),
                Some (m_json ''http://img/m5''), Some (m_json ''http://img/m6'')],
      mimg_src = [(Some ''http://thumb/1'', None)],
      page_data =
        ''<html><body>'' @ anchor_html (m_html ''http://img/m1'')
          @ ''<a class='' @ dquote # ''iusc'' @ dquote # ''></a>'' @ anchor_html ''bad''
          @ anchor_html (m_html ''http://img/m2'') @ anchor_html (m_html ''http://img/m3'')
          @ anchor_html (m_html ''http://img/m4'') @ anchor_html (m_html ''http://img/m5'')
          @ anchor_html (m_html ''http://img/m6'') @ img_html ''src'' ''http://thumb/1''
          @ ''</body></html>''\<rparr>"

definition page_tier2 :: page where
  "page_tier2 =
     \<lparr>iusc_m = [Some ''bad''],
      mimg_src = [(None, Some ''http://thumb/a''), (Some ''data:image/gif;base64'', None),
                  (Some ''https://thumb/b'', Some ''x'')],
      page_data =
        ''<html><body>'' @ anchor_html ''bad'' @ img_html ''data-src'' ''http://thumb/a''
          @ img_html ''src'' ''data:image/gif;base64''
          @ ''<img class='' @ dquote # ''mimg'' @ dquote # '' src='' @ dquote # ''https://thumb/b''
          @ dquote # '' data-src='' @ dquote # ''x'' @ dquote # ''>''
          @ ''</body></html>''\<rparr>"

definition page_tier3 :: page where
  "page_tier3 =
     \<lparr>iusc_m = [],
      mimg_src = [],
      page_data =
        ''<html><body><script>var r = {'' @ murl_key @ ''https://raw'' @ backslash # ''u002fz.jpg''
          @ dquote # ''};</script></body></html>''\<rparr>"

text \<open>
  \<open>JSON.parse(m).murl\<close> on the attribute values of these pages: an object with the one
  key \<open>murl\<close> gives its value, anything else is taken to throw.
\<close>

definition json_murl_demo :: "string \<Rightarrow> js_exn + string option" where
  "json_murl_demo m =
     (case strip_prefix ''{'' m of
        None \<Rightarrow> Inl (JsError ''Unexpected token'')
      | Some r \<Rightarrow>
          (case match_murl r of
             None \<Rightarrow> Inl (JsError ''Unexpected token'')
           | Some (u, rest) \<Rightarrow> if rest = ''}'' then Inr (Some u) else Inl (JsError ''Unexpected token'')))"

text \<open>
  A run over four rows: row 0 finds candidates, its first fetch fails and its second is
  written; the search of row 1 times out; every fetch of row 2 is too small; the write of
  row 3 throws.
\<close>

definition env_demo :: env where
  "env_demo =
     \<lparr>os_tmpdir = ''/tmp'',
      now_dir = 17,
      now_zip = 18,
      axios_get_page = (\<lambda>i url.
         if i = 0 then Inr page_tier1
         else if i = Suc 0 then Inl (JsError ''timeout of 10000ms exceeded'')
         else if i = Suc (Suc 0) then Inr page_tier2
         else Inr page_tier3),
      json_murl = json_murl_demo,
      axios_get_image = (\<lambda>i j url.
         if i = 0 then
           (if j = 0 then Inl (JsError ''ECONNRESET'')
            else Inr \<lparr>content_type = Some ''image/png'', response_data = big_image\<rparr>)
         else if i = Suc (Suc 0) then Inr \<lparr>content_type = None, response_data = small_image\<rparr>
         else Inr \<lparr>content_type = Some ''image/webp'', response_data = big_image\<rparr>),
      writeFileSync = (\<lambda>i p b.
         if i = Suc (Suc (Suc 0)) then Some (JsError ''ENOENT: no such file or directory'')
         else None),
      archive_run = OutputClosed (Some 2364),
      rmSync = None\<rparr>"

definition rows_demo :: "ExcelRow list" where
  "rows_demo =
     [\<lparr>row_id = Some ''1'', row_image_name = Some ''red/cat''\<rparr>,
      \<lparr>row_id = Some ''2'', row_image_name = Some ''zzqqxx''\<rparr>,
      \<lparr>row_id = Some ''3'', row_image_name = Some ''dog''\<rparr>,
      \<lparr>row_id = Some ''a/b'', row_image_name = Some ''bird''\<rparr>]"

definition row_cat :: ExcelRow where
  "row_cat = \<lparr>row_id = Some ''1'', row_image_name = Some ''cat''\<rparr>"

definition row_escape :: ExcelRow where
  "row_escape = \<lparr>row_id = Some ''../../etc/cron.d/x'', row_image_name = Some ''cat''\<rparr>"

text \<open>The phrase \<open>cat\<close> followed by the lone surrogate \<open>D800\<close>.\<close>

definition phrase_lone :: string where
  "phrase_lone = ''cat'' @ [CHR 0xED, CHR 0xA0, CHR 0x80]"

definition row_lone :: ExcelRow where
  "row_lone = \<lparr>row_id = Some ''5'', row_image_name = Some phrase_lone\<rparr>"

definition row_no_name :: ExcelRow where
  "row_no_name = \<lparr>row_id = Some ''1'', row_image_name = None\<rparr>"

text \<open>The same host with the search surface unreachable.\<close>

definition env_offline :: env where
  "env_offline = env_demo\<lparr>axios_get_page := (\<lambda>i url. Inl (JsError ''getaddrinfo ENOTFOUND''))\<rparr>"

text \<open>The same host with an archiver that reports an error.\<close>

definition env_archive_error :: env where
  "env_archive_error = env_demo\<lparr>archive_run := ArchiveError (JsError ''archive failed'')\<rparr>"

text \<open>The same host with an archive file that exists and is empty after the close.\<close>

definition env_empty_zip :: env where
  "env_empty_zip = env_demo\<lparr>archive_run := OutputClosed (Some 0)\<rparr>"

text \<open>The same host with no archive file after the close.\<close>

definition env_no_zip :: env where
  "env_no_zip = env_demo\<lparr>archive_run := OutputClosed None\<rparr>"

text \<open>The same host with an output stream that reports an error.\<close>

definition env_stream_error :: env where
  "env_stream_error =
     env_demo\<lparr>archive_run := OutputError (JsError ''ENOSPC: no space left on device, write'')\<rparr>"

text \<open>A host holding one archive, and the same host refusing to remove files.\<close>

definition host_demo :: host where
  "host_demo =
     \<lparr>host_tmpdir = ''/tmp'',
      files = [''/tmp/image-downloader-zips/images-18.zip'' \<mapsto> big_image],
      unlink_error = (\<lambda>p. None)\<rparr>"

definition host_locked :: host where
  "host_locked = host_demo\<lparr>unlink_error := (\<lambda>p. Some (JsError ''EPERM: operation not permitted''))\<rparr>"

section \<open>Properties of the row loop\<close>

lemma update_at_list_update:
  "update_at i f xs = (if i < length xs then xs[i := f (xs ! i)] else xs)"
  by (induction i f xs rule: update_at.induct) auto

lemma length_update_at [simp]: "length (update_at i f xs) = length xs"
  by (simp add: update_at_list_update)

lemma map_update_at: "(\<And>x. g (f x) = g x) \<Longrightarrow> map g (update_at i f xs) = map g xs"
  by (induction i f xs rule: update_at.induct) auto

lemma nth_update_at_same: "i < length xs \<Longrightarrow> update_at i f xs ! i = f (xs ! i)"
  by (simp add: update_at_list_update)

lemma nth_update_at_other: "j \<noteq> i \<Longrightarrow> update_at i f xs ! j = xs ! j"
  by (simp add: update_at_list_update)

lemma length_set_status [simp]: "length (set_status i st xs) = length xs"
  by (simp add: set_status_def)

lemma length_set_failed [simp]: "length (set_failed i c xs) = length xs"
  by (simp add: set_failed_def)

lemma ids_set_status [simp]: "map item_id (set_status i st xs) = map item_id xs"
  by (simp add: set_status_def map_update_at)

lemma ids_set_failed [simp]: "map item_id (set_failed i c xs) = map item_id xs"
  by (simp add: set_failed_def map_update_at)

lemma names_set_status [simp]: "map image_name (set_status i st xs) = map image_name xs"
  by (simp add: set_status_def map_update_at)

lemma names_set_failed [simp]: "map image_name (set_failed i c xs) = map image_name xs"
  by (simp add: set_failed_def map_update_at)

lemma frames_of_simps [simp]:
  "frames_of [] = []"
  "frames_of (e # evs) = frame_of e @ frames_of evs"
  "frames_of (evs @ evs') = frames_of evs @ frames_of evs'"
  by (simp_all add: frames_of_def)

lemma snapshots_of_simps [simp]:
  "snapshots_of [] = []"
  "snapshots_of (e # evs) = snapshot_of e @ snapshots_of evs"
  "snapshots_of (evs @ evs') = snapshots_of evs @ snapshots_of evs'"
  by (simp_all add: snapshots_of_def)

lemma work_of_simps [simp]:
  "work_of [] = []"
  "work_of (e # evs) = (if is_work e then e # work_of evs else work_of evs)"
  "work_of (evs @ evs') = work_of evs @ work_of evs'"
  by (simp_all add: work_of_def)

lemma fetches_of_simps [simp]:
  "fetches_of [] = []"
  "fetches_of (e # evs) = fetch_of e @ fetches_of evs"
  "fetches_of (evs @ evs') = fetches_of evs @ fetches_of evs'"
  by (simp_all add: fetches_of_def)

lemma writes_of_simps [simp]:
  "writes_of [] = []"
  "writes_of (e # evs) = write_of e @ writes_of evs"
  "writes_of (evs @ evs') = writes_of evs @ writes_of evs'"
  by (simp_all add: writes_of_def)

lemma searches_of_simps [simp]:
  "searches_of [] = []"
  "searches_of (e # evs) = search_of e @ searches_of evs"
  "searches_of (evs @ evs') = searches_of evs @ searches_of evs'"
  by (simp_all add: searches_of_def)

text \<open>The effects of an attempt are searches, fetches and writes only.\<close>

lemma try_candidates_frames [simp]:
  "frames_of (snd (try_candidates env t i rid j urls)) = []"
  by (induction urls arbitrary: j) (simp_all add: Let_def case_prod_beta split: option.splits)

lemma try_candidates_searches [simp]:
  "searches_of (snd (try_candidates env t i rid j urls)) = []"
  by (induction urls arbitrary: j) (simp_all add: Let_def case_prod_beta split: option.splits)

lemma try_candidates_snapshots [simp]:
  "snapshots_of (snd (try_candidates env t i rid j urls)) = []"
  by (induction urls arbitrary: j) (simp_all add: Let_def case_prod_beta split: option.splits)

lemma attempt_row_frames [simp]: "frames_of (snd (attempt_row env t i rid q)) = []"
  by (simp add: attempt_row_def Let_def case_prod_beta split: sum.splits)

lemma attempt_row_snapshots [simp]: "snapshots_of (snd (attempt_row env t i rid q)) = []"
  by (simp add: attempt_row_def Let_def case_prod_beta split: sum.splits)

lemma attempt_row_searches [simp]: "searches_of (snd (attempt_row env t i rid q)) = [q]"
  by (simp add: attempt_row_def Let_def case_prod_beta split: sum.splits)

lemma process_row_length [simp]:
  "length (fst (process_row env t i row items)) = length items"
  by (simp add: process_row_def Let_def case_prod_beta split: attempt.splits)

lemma process_row_ids [simp]:
  "map item_id (fst (process_row env t i row items)) = map item_id items"
  by (simp add: process_row_def Let_def case_prod_beta split: attempt.splits)

lemma process_row_names [simp]:
  "map image_name (fst (process_row env t i row items)) = map image_name items"
  by (simp add: process_row_def Let_def case_prod_beta split: attempt.splits)

lemma process_row_snapshots:
  "snapshots_of (snd (process_row env t i row items)) =
     [set_status i downloading items, fst (process_row env t i row items)]"
  by (simp add: process_row_def Let_def case_prod_beta split: attempt.splits)

lemma process_row_frames:
  "frames_of (snd (process_row env t i row items)) =
     [Progress (set_status i downloading items), Progress (fst (process_row env t i row items))]"
  by (simp add: process_row_def Let_def case_prod_beta split: attempt.splits)

lemma process_row_searches:
  "searches_of (snd (process_row env t i row items)) =
     [replace_slashes (js_String (row_image_name row))]"
  by (simp add: process_row_def Let_def case_prod_beta split: attempt.splits)

lemma rows_loop_length [simp]:
  "length (fst (rows_loop env t i rows items)) = length items"
  by (induction rows arbitrary: i items) (simp_all add: Let_def case_prod_beta)

lemma rows_loop_ids [simp]:
  "map item_id (fst (rows_loop env t i rows items)) = map item_id items"
  by (induction rows arbitrary: i items) (simp_all add: Let_def case_prod_beta)

lemma rows_loop_names [simp]:
  "map image_name (fst (rows_loop env t i rows items)) = map image_name items"
  by (induction rows arbitrary: i items) (simp_all add: Let_def case_prod_beta)

lemma rows_loop_snapshot_count:
  "length (snapshots_of (snd (rows_loop env t i rows items))) = 2 * length rows"
  by (induction rows arbitrary: i items)
    (simp_all add: Let_def case_prod_beta process_row_snapshots)

lemma rows_loop_snapshot_shape:
  "s \<in> set (snapshots_of (snd (rows_loop env t i rows items))) \<Longrightarrow>
     length s = length items \<and> map item_id s = map item_id items
       \<and> map image_name s = map image_name items"
proof (induction rows arbitrary: i items)
  case Nil
  then show ?case by simp
next
  case (Cons row rows)
  from Cons.prems consider
      "s = set_status i downloading items"
    | "s = fst (process_row env t i row items)"
    | "s \<in> set (snapshots_of (snd (rows_loop env t (Suc i) rows (fst (process_row env t i row items)))))"
    by (auto simp: Let_def case_prod_beta process_row_snapshots)
  then show ?case
  proof cases
    case 1 then show ?thesis by simp
  next
    case 2 then show ?thesis by simp
  next
    case 3 from Cons.IH [OF 3] show ?thesis by simp
  qed
qed

lemma rows_loop_frames:
  "frames_of (snd (rows_loop env t i rows items)) =
     map Progress (snapshots_of (snd (rows_loop env t i rows items)))"
  by (induction rows arbitrary: i items)
    (simp_all add: Let_def case_prod_beta process_row_snapshots process_row_frames)

lemma rows_loop_searches:
  "searches_of (snd (rows_loop env t i rows items)) =
     map (\<lambda>row. replace_slashes (js_String (row_image_name row))) rows"
  by (induction rows arbitrary: i items)
    (simp_all add: Let_def case_prod_beta process_row_searches)

lemma finish_snapshots [simp]: "snapshots_of (finish c) = []"
  by (cases c) simp_all

lemma finish_writes [simp]: "writes_of (finish c) = []"
  by (cases c) simp_all

lemma finish_searches [simp]: "searches_of (finish c) = []"
  by (cases c) simp_all

lemma archive_phase_snapshots [simp]: "snapshots_of (fst (archive_phase env t)) = []"
  by (simp add: archive_phase_def Let_def cleanup_def split: archive_outcome.splits option.splits)

lemma initial_ids [simp]: "map item_id (map initial_item rows) = map (\<lambda>row. js_String (row_id row)) rows"
  by (simp add: initial_item_def)

lemma initial_names [simp]:
  "map image_name (map initial_item rows) = map (\<lambda>row. js_String (row_image_name row)) rows"
  by (simp add: initial_item_def)

lemma POST_snapshots:
  assumes "rows = r # rs" "row_id r \<noteq> None" "row_image_name r \<noteq> None"
  shows "snapshots_of (POST env (Table rows)) =
     map initial_item rows # snapshots_of (snd (rows_loop env (temp_dir env) 0 rows (map initial_item rows)))"
  using assms
  by (simp add: POST_def run_request_def Let_def case_prod_beta)

lemma try_candidates_exhausted:
  "(\<And>m. m < length urls \<Longrightarrow> downloadImage env i (j + m) (urls ! m) = None) \<Longrightarrow>
     try_candidates env t i rid j urls = (Exhausted, map Fetch urls)"
proof (induction urls arbitrary: j)
  case Nil
  then show ?case by simp
next
  case (Cons url urls)
  have h: "downloadImage env i j url = None"
    using Cons.prems [of 0] by simp
  have "try_candidates env t i rid (Suc j) urls = (Exhausted, map Fetch urls)"
  proof (rule Cons.IH)
    fix m assume "m < length urls"
    then show "downloadImage env i (Suc j + m) (urls ! m) = None"
      using Cons.prems [of "Suc m"] by simp
  qed
  with h show ?case by simp
qed

lemma try_candidates_first_viable:
  "k < length urls \<Longrightarrow>
   (\<And>m. m < k \<Longrightarrow> downloadImage env i (j + m) (urls ! m) = None) \<Longrightarrow>
   downloadImage env i (j + k) (urls ! k) = Some (buf, ext) \<Longrightarrow>
     try_candidates env t i rid j urls =
       ((case writeFileSync env i (path_join [t, rid @ ext]) buf of
           Some err \<Rightarrow> Threw err | None \<Rightarrow> Downloaded),
        map Fetch (take (Suc k) urls) @ [WriteFile (path_join [t, rid @ ext]) buf])"
proof (induction urls arbitrary: j k)
  case Nil
  then show ?case by simp
next
  case (Cons url urls)
  show ?case
  proof (cases k)
    case 0
    with Cons.prems(3) have "downloadImage env i j url = Some (buf, ext)" by simp
    with 0 show ?thesis by (simp add: Let_def split: option.splits)
  next
    case (Suc k')
    have h: "downloadImage env i j url = None"
      using Cons.prems(2) [of 0] Suc by simp
    have "try_candidates env t i rid (Suc j) urls =
       ((case writeFileSync env i (path_join [t, rid @ ext]) buf of
           Some err \<Rightarrow> Threw err | None \<Rightarrow> Downloaded),
        map Fetch (take (Suc k') urls) @ [WriteFile (path_join [t, rid @ ext]) buf])"
    proof (rule Cons.IH)
      show "k' < length urls" using Cons.prems(1) Suc by simp
      show "downloadImage env i (Suc j + m) (urls ! m) = None" if "m < k'" for m
        using Cons.prems(2) [of "Suc m"] that Suc by simp
      show "downloadImage env i (Suc j + k') (urls ! k') = Some (buf, ext)"
        using Cons.prems(3) Suc by simp
    qed
    with h Suc show ?thesis by simp
  qed
qed

lemma nth_set_status:
  "i < length xs \<Longrightarrow> set_status i st xs ! i = (xs ! i)\<lparr>status := st\<rparr>"
  by (simp add: set_status_def nth_update_at_same)

lemma nth_set_failed:
  "i < length xs \<Longrightarrow> set_failed i c xs ! i = (xs ! i)\<lparr>status := failed, error := Some c\<rparr>"
  by (simp add: set_failed_def nth_update_at_same)

lemma nth_set_status_other: "j \<noteq> i \<Longrightarrow> set_status i st xs ! j = xs ! j"
  by (simp add: set_status_def nth_update_at_other)

lemma nth_set_failed_other: "j \<noteq> i \<Longrightarrow> set_failed i c xs ! j = xs ! j"
  by (simp add: set_failed_def nth_update_at_other)

text \<open>The four ways a row's attempt ends, read off the loop body.\<close>

lemma process_row_no_images:
  assumes "i < length items"
    and "searchBingImages env i (replace_slashes (js_String (row_image_name row))) = Inr []"
  shows "status (fst (process_row env t i row items) ! i) = failed"
    and "error (fst (process_row env t i row items) ! i) = Some ''No images found''"
    and "fetches_of (snd (process_row env t i row items)) = []"
    and "writes_of (snd (process_row env t i row items)) = []"
  using assms
  by (simp_all add: process_row_def attempt_row_def Let_def nth_set_failed)

lemma process_row_search_throws:
  assumes "i < length items"
    and "searchBingImages env i (replace_slashes (js_String (row_image_name row))) = Inl err"
  shows "status (fst (process_row env t i row items) ! i) = failed"
    and "error (fst (process_row env t i row items) ! i) = Some (message_or ''Unknown error'' err)"
    and "fetches_of (snd (process_row env t i row items)) = []"
    and "writes_of (snd (process_row env t i row items)) = []"
  using assms
  by (simp_all add: process_row_def attempt_row_def Let_def nth_set_failed)

lemma process_row_exhausted:
  assumes "i < length items"
    and "searchBingImages env i (replace_slashes (js_String (row_image_name row))) = Inr urls"
    and "urls \<noteq> []"
    and "\<And>m. m < length urls \<Longrightarrow> downloadImage env i m (urls ! m) = None"
  shows "status (fst (process_row env t i row items) ! i) = failed"
    and "error (fst (process_row env t i row items) ! i) = Some ''Failed to download image''"
    and "fetches_of (snd (process_row env t i row items)) = urls"
    and "writes_of (snd (process_row env t i row items)) = []"
proof -
  have tc: "try_candidates env t i (js_String (row_id row)) 0 urls = (Exhausted, map Fetch urls)"
    by (rule try_candidates_exhausted) (simp add: assms(4))
  have f: "fetches_of (map Fetch us) = us" for us
    by (induction us) simp_all
  have w: "writes_of (map Fetch us) = []" for us
    by (induction us) simp_all
  show "status (fst (process_row env t i row items) ! i) = failed"
    and "error (fst (process_row env t i row items) ! i) = Some ''Failed to download image''"
    and "fetches_of (snd (process_row env t i row items)) = urls"
    and "writes_of (snd (process_row env t i row items)) = []"
    using assms(1-3) tc
    by (simp_all add: process_row_def attempt_row_def Let_def nth_set_failed f w)
qed

lemma process_row_first_viable:
  assumes "i < length items"
    and "searchBingImages env i (replace_slashes (js_String (row_image_name row))) = Inr urls"
    and "k < length urls"
    and "\<And>m. m < k \<Longrightarrow> downloadImage env i m (urls ! m) = None"
    and "downloadImage env i k (urls ! k) = Some (buf, ext)"
  shows "fetches_of (snd (process_row env t i row items)) = take (Suc k) urls"
    and "writes_of (snd (process_row env t i row items)) =
           [(path_join [t, js_String (row_id row) @ ext], buf)]"
    and "writeFileSync env i (path_join [t, js_String (row_id row) @ ext]) buf = None \<Longrightarrow>
           status (fst (process_row env t i row items) ! i) = success"
    and "writeFileSync env i (path_join [t, js_String (row_id row) @ ext]) buf = Some err \<Longrightarrow>
           status (fst (process_row env t i row items) ! i) = failed
           \<and> error (fst (process_row env t i row items) ! i)
               = Some (message_or ''Unknown error'' err)"
proof -
  let ?p = "path_join [t, js_String (row_id row) @ ext]"
  have tc: "try_candidates env t i (js_String (row_id row)) 0 urls =
       ((case writeFileSync env i ?p buf of Some err \<Rightarrow> Threw err | None \<Rightarrow> Downloaded),
        map Fetch (take (Suc k) urls) @ [WriteFile ?p buf])"
    by (rule try_candidates_first_viable) (simp_all add: assms(3-5))
  have ne: "urls \<noteq> []" using assms(3) by auto
  have f: "fetches_of (map Fetch us) = us" for us
    by (induction us) simp_all
  have w: "writes_of (map Fetch us) = []" for us
    by (induction us) simp_all
  show "fetches_of (snd (process_row env t i row items)) = take (Suc k) urls"
    using assms(1,2) ne tc
    by (simp add: process_row_def attempt_row_def Let_def f w split: option.splits)
  show "writes_of (snd (process_row env t i row items)) = [(?p, buf)]"
    using assms(1,2) ne tc
    by (simp add: process_row_def attempt_row_def Let_def f w split: option.splits)
  show "status (fst (process_row env t i row items) ! i) = success"
    if "writeFileSync env i ?p buf = None"
    using assms(1,2) ne tc that
    by (simp add: process_row_def attempt_row_def Let_def nth_set_status)
  show "status (fst (process_row env t i row items) ! i) = failed
           \<and> error (fst (process_row env t i row items) ! i)
               = Some (message_or ''Unknown error'' err)"
    if "writeFileSync env i ?p buf = Some err"
    using assms(1,2) ne tc that
    by (simp add: process_row_def attempt_row_def Let_def nth_set_failed)
qed

text \<open>A row's iteration touches its own entry only, and reads nothing of the others.\<close>

lemma process_row_other:
  "j \<noteq> i \<Longrightarrow> fst (process_row env t i row items) ! j = items ! j"
  by (simp add: process_row_def Let_def case_prod_beta nth_set_status_other nth_set_failed_other
      split: attempt.splits)

lemma process_row_local:
  "i < length items \<Longrightarrow> i < length items' \<Longrightarrow> items ! i = items' ! i \<Longrightarrow>
     fst (process_row env t i row items) ! i = fst (process_row env t i row items') ! i"
  by (simp add: process_row_def Let_def case_prod_beta nth_set_status nth_set_failed
      split: attempt.splits)

lemma rows_loop_before:
  "j < i \<Longrightarrow> fst (rows_loop env t i rows items) ! j = items ! j"
  by (induction rows arbitrary: i items) (simp_all add: Let_def case_prod_beta process_row_other)

lemma rows_loop_nth:
  "k < length rows \<Longrightarrow> i + k < length items \<Longrightarrow>
     fst (rows_loop env t i rows items) ! (i + k) =
     fst (process_row env t (i + k) (rows ! k) items) ! (i + k)"
proof (induction rows arbitrary: i items k)
  case Nil
  then show ?case by simp
next
  case (Cons row rows)
  let ?items1 = "fst (process_row env t i row items)"
  show ?case
  proof (cases k)
    case 0
    then show ?thesis by (simp add: Let_def case_prod_beta rows_loop_before)
  next
    case (Suc k')
    have "fst (rows_loop env t (Suc i) rows ?items1) ! (Suc i + k') =
          fst (process_row env t (Suc i + k') (rows ! k') ?items1) ! (Suc i + k')"
      using Cons.prems Suc by (intro Cons.IH) simp_all
    also have "\<dots> = fst (process_row env t (Suc i + k') (rows ! k') items) ! (Suc i + k')"
      using Cons.prems Suc by (intro process_row_local) (simp_all add: process_row_other)
    finally show ?thesis using Suc by (simp add: Let_def case_prod_beta)
  qed
qed

lemma process_row_terminal:
  "i < length items \<Longrightarrow>
     status (fst (process_row env t i row items) ! i) = success
     \<or> status (fst (process_row env t i row items) ! i) = failed"
  by (simp add: process_row_def Let_def case_prod_beta nth_set_status nth_set_failed
      split: attempt.splits)

text \<open>A run over a table that passes validation, spelled out.\<close>

lemma run_request_valid:
  "valid_table rows \<Longrightarrow>
     run_request env (Table rows) =
       (Send (Progress (map initial_item rows)) # Mkdir (temp_dir env)
          # snd (rows_loop env (temp_dir env) 0 rows (map initial_item rows))
          @ fst (archive_phase env (temp_dir env)),
        snd (archive_phase env (temp_dir env)))"
  by (cases rows) (auto simp: run_request_def Let_def case_prod_beta)

lemma POST_valid:
  "valid_table rows \<Longrightarrow>
     POST env (Table rows) =
       Send (Progress (map initial_item rows)) # Mkdir (temp_dir env)
         # snd (rows_loop env (temp_dir env) 0 rows (map initial_item rows))
         @ fst (archive_phase env (temp_dir env))
         @ finish (snd (archive_phase env (temp_dir env)))"
  by (simp add: POST_def run_request_valid)

lemma archive_phase_done:
  "snd (archive_phase env t) =
     (case archive_run env of
        ArchiveError err \<Rightarrow> Thrown err
      | OutputError err \<Rightarrow> Pending
      | OutputClosed stats \<Rightarrow> Returned)"
  by (simp add: archive_phase_def Let_def split: archive_outcome.splits)

text \<open>Only the request itself closes the writer.\<close>

lemma try_candidates_no_close: "Close \<notin> set (snd (try_candidates env t i rid j urls))"
  by (induction urls arbitrary: j) (simp_all add: Let_def case_prod_beta split: option.splits)

lemma process_row_no_close: "Close \<notin> set (snd (process_row env t i row items))"
  using try_candidates_no_close
  by (simp add: process_row_def attempt_row_def Let_def case_prod_beta
      split: attempt.splits sum.splits)

lemma rows_loop_no_close: "Close \<notin> set (snd (rows_loop env t i rows items))"
  by (induction rows arbitrary: i items)
    (simp_all add: Let_def case_prod_beta process_row_no_close)

lemma archive_phase_no_close: "Close \<notin> set (fst (archive_phase env t))"
  by (simp add: archive_phase_def cleanup_def Let_def split: archive_outcome.splits option.splits)

lemma POST_close_calls:
  "count_list (POST env req) Close =
     (case req of
        NoFile \<Rightarrow> 2
      | Unreadable err \<Rightarrow> 1
      | Table rows \<Rightarrow>
          if valid_table rows
          then (case archive_run env of
                  ArchiveError err \<Rightarrow> 1
                | OutputError err \<Rightarrow> 0
                | OutputClosed stats \<Rightarrow> 1)
          else 2)"
proof (cases req)
  case NoFile
  then show ?thesis by (simp add: POST_def run_request_def)
next
  case (Unreadable err)
  then show ?thesis by (simp add: POST_def run_request_def)
next
  case (Table rows)
  show ?thesis
  proof (cases "valid_table rows")
    case True
    then show ?thesis
      using Table rows_loop_no_close archive_phase_no_close
      by (simp add: POST_valid archive_phase_done split: archive_outcome.splits)
  next
    case False
    then show ?thesis
      using Table by (cases rows) (auto simp: POST_def run_request_def)
  qed
qed

section \<open>Properties of a whole run, and evaluation rules\<close>

lemma length_big_image [simp]: "length big_image = 1000"
  by (simp add: big_image_def)

lemma length_small_image [simp]: "length small_image = 10"
  by (simp add: small_image_def)

lemmas search_eval =
  row_candidates_def row_phrase_def searchBingImages_def search_try_def encodeURIComponent_def
  tier1_def tier2_def tier3_def
  page_tier1_def page_tier2_def page_tier3_def env_demo_def rows_demo_def
  json_murl_demo_def m_json_def
  regex_murls.simps match_murl_def match_scheme_def murl_key_def
  dquote_def backslash_def slash_def replace_slashes_def

lemmas fetch_eval = downloadImage_def extension_of_def env_demo_def

lemmas path_eval =
  row_file_def temp_dir_def path_join_def normalize_def normalizeString_def normalize_step_def
  slash_def toString.simps digit_char_def env_demo_def rows_demo_def

lemmas tier_eval =
  tier1_def tier2_def tier3_def page_tier1_def page_tier2_def page_tier3_def env_demo_def
  json_murl_demo_def m_json_def
  regex_murls.simps match_murl_def match_scheme_def murl_key_def dquote_def backslash_def
  slash_def

lemma extension_of_cases:
  "extension_of ct \<in> set [''.jpg'', ''.png'', ''.gif'', ''.webp'']"
  by (simp add: extension_of_def)

lemma downloadImage_extension:
  "downloadImage env i j url = Some (b, ext) \<Longrightarrow> ext \<in> set [''.jpg'', ''.png'', ''.gif'', ''.webp'']"
  using extension_of_cases
  by (auto simp: downloadImage_def Let_def split: sum.splits if_splits)

lemma try_candidates_writes:
  "(p, b) \<in> set (writes_of (snd (try_candidates env t i rid j urls))) \<Longrightarrow>
     \<exists>ext \<in> set [''.jpg'', ''.png'', ''.gif'', ''.webp'']. p = path_join [t, rid @ ext]"
proof (induction urls arbitrary: j)
  case Nil
  then show ?case by simp
next
  case (Cons url urls)
  show ?case
  proof (cases "downloadImage env i j url")
    case None
    with Cons.prems have "(p, b) \<in> set (writes_of (snd (try_candidates env t i rid (Suc j) urls)))"
      by (simp add: case_prod_beta)
    then show ?thesis by (rule Cons.IH)
  next
    case (Some r)
    obtain buf ext where r: "r = (buf, ext)" by (cases r)
    from Some r have "ext \<in> set [''.jpg'', ''.png'', ''.gif'', ''.webp'']"
      using downloadImage_extension by blast
    moreover from Cons.prems Some r have "p = path_join [t, rid @ ext]"
      by (simp add: Let_def split: option.splits)
    ultimately show ?thesis by blast
  qed
qed

lemma process_row_writes:
  "(p, b) \<in> set (writes_of (snd (process_row env t i row items))) \<Longrightarrow>
     \<exists>ext \<in> set [''.jpg'', ''.png'', ''.gif'', ''.webp'']. p = row_file t row ext"
proof -
  assume h: "(p, b) \<in> set (writes_of (snd (process_row env t i row items)))"
  let ?q = "replace_slashes (js_String (row_image_name row))"
  from h have "(p, b) \<in> set (writes_of (snd (attempt_row env t i (js_String (row_id row)) ?q)))"
    by (simp add: process_row_def Let_def case_prod_beta split: attempt.splits)
  then obtain urls where
    "(p, b) \<in> set (writes_of (snd (try_candidates env t i (js_String (row_id row)) 0 urls)))"
    by (auto simp: attempt_row_def Let_def case_prod_beta split: if_splits sum.splits)
  from try_candidates_writes [OF this] show ?thesis
    by (simp add: row_file_def)
qed

lemma rows_loop_writes:
  "(p, b) \<in> set (writes_of (snd (rows_loop env t i rows items))) \<Longrightarrow>
     \<exists>row \<in> set rows. \<exists>ext \<in> set [''.jpg'', ''.png'', ''.gif'', ''.webp'']. p = row_file t row ext"
proof (induction rows arbitrary: i items)
  case Nil
  then show ?case by simp
next
  case (Cons row rows)
  from Cons.prems consider
      "(p, b) \<in> set (writes_of (snd (process_row env t i row items)))"
    | "(p, b) \<in> set (writes_of (snd (rows_loop env t (Suc i) rows (fst (process_row env t i row items)))))"
    by (auto simp: Let_def case_prod_beta)
  then show ?case
  proof cases
    case 1
    from process_row_writes [OF 1] show ?thesis by auto
  next
    case 2
    from Cons.IH [OF 2] show ?thesis by auto
  qed
qed

lemma archive_phase_writes [simp]: "writes_of (fst (archive_phase env t)) = []"
  by (simp add: archive_phase_def Let_def cleanup_def split: archive_outcome.splits option.splits)

lemma archive_phase_searches [simp]: "searches_of (fst (archive_phase env t)) = []"
  by (simp add: archive_phase_def Let_def cleanup_def split: archive_outcome.splits option.splits)

lemma POST_writes:
  assumes "valid_table rows"
  shows "writes_of (POST env (Table rows)) =
     writes_of (snd (rows_loop env (temp_dir env) 0 rows (map initial_item rows)))"
  by (simp add: POST_valid [OF assms])

lemma POST_searches:
  assumes "valid_table rows"
  shows "searches_of (POST env (Table rows)) =
     map (\<lambda>row. replace_slashes (js_String (row_image_name row))) rows"
  by (simp add: POST_valid [OF assms] rows_loop_searches)

lemmas post_eval =
  POST_def run_request_def process_row_def attempt_row_def searchBingImages_def
  search_try_def encodeURIComponent_def json_murl_demo_def m_json_def
  regex_murls.simps match_murl_def match_scheme_def murl_key_def dquote_def
  tier1_def tier2_def tier3_def page_tier1_def page_tier2_def page_tier3_def
  downloadImage_def extension_of_def archive_phase_def cleanup_def
  temp_dir_def zip_dir_def zip_path_def path_join_def normalize_def normalizeString_def
  normalize_step_def slash_def toString.simps digit_char_def initial_item_def
  set_status_def set_failed_def env_demo_def Let_def replace_slashes_def backslash_def

lemmas offline_eval = post_eval env_offline_def env_archive_error_def env_empty_zip_def
  env_no_zip_def env_stream_error_def rows_demo_def row_cat_def work_of_def

lemma process_row_pause:
  "(Pause 500 \<in> set (row_effects env t i row items)) = (row_candidates env i row \<noteq> Inr [])"
proof -
  have tc: "Pause n \<notin> set (snd (try_candidates env t i rid j urls))" for n rid j urls
    by (induction urls arbitrary: j) (simp_all add: Let_def case_prod_beta split: option.splits)
  have ni: "fst (try_candidates env t i rid j urls) \<noteq> NoImages" for rid j urls
    by (induction urls arbitrary: j) (simp_all add: Let_def case_prod_beta split: option.splits)
  show ?thesis
    using tc ni
    by (simp add: row_effects_def row_candidates_def row_phrase_def process_row_def
        attempt_row_def Let_def case_prod_beta split: attempt.splits sum.splits)
qed

text \<open>The outcome of the cleanup is never read.\<close>

lemma tier1_element_rmSync [simp]:
  "tier1_element (env\<lparr>rmSync := r\<rparr>) = tier1_element env"
proof
  fix m show "tier1_element (env\<lparr>rmSync := r\<rparr>) m = tier1_element env m"
    by (cases m) simp_all
qed

lemma searchBingImages_rmSync [simp]:
  "searchBingImages (env\<lparr>rmSync := r\<rparr>) i q = searchBingImages env i q"
  by (simp add: searchBingImages_def search_try_def tier1_def Let_def split: sum.splits)

lemma downloadImage_rmSync [simp]:
  "downloadImage (env\<lparr>rmSync := r\<rparr>) i j url = downloadImage env i j url"
  by (simp add: downloadImage_def Let_def split: sum.splits)

lemma try_candidates_rmSync [simp]:
  "try_candidates (env\<lparr>rmSync := r\<rparr>) t i rid j urls = try_candidates env t i rid j urls"
  by (induction urls arbitrary: j) (simp_all add: Let_def case_prod_beta split: option.splits)

lemma process_row_rmSync [simp]:
  "process_row (env\<lparr>rmSync := r\<rparr>) t i row items = process_row env t i row items"
  by (simp add: process_row_def attempt_row_def Let_def case_prod_beta
      cong: attempt.case_cong if_cong sum.case_cong)

lemma rows_loop_rmSync [simp]:
  "rows_loop (env\<lparr>rmSync := r\<rparr>) t i rows items = rows_loop env t i rows items"
  by (induction rows arbitrary: i items) (simp_all add: Let_def case_prod_beta)

lemma archive_phase_rmSync [simp]:
  "archive_phase (env\<lparr>rmSync := r\<rparr>) t = archive_phase env t"
  by (simp add: archive_phase_def cleanup_def Let_def split: option.splits archive_outcome.splits)

lemma POST_rmSync: "POST (env\<lparr>rmSync := r\<rparr>) req = POST env req"
  by (simp add: POST_def run_request_def temp_dir_def Let_def case_prod_beta
      cong: upload.case_cong list.case_cong if_cong)

lemma archive_phase_frames:
  "frames_of (fst (archive_phase env t)) =
     (case archive_run env of
        ArchiveError err \<Rightarrow> []
      | OutputError err \<Rightarrow> []
      | OutputClosed None \<Rightarrow> [Error ''Failed to create ZIP file'']
      | OutputClosed (Some sz) \<Rightarrow> [Complete (''/api/download?id='' @ toString (now_zip env))])"
  by (simp add: archive_phase_def Let_def cleanup_def split: archive_outcome.splits option.splits)

lemma POST_frames:
  assumes "valid_table rows"
  shows "frames_of (POST env (Table rows)) =
     map Progress (snapshots_of (POST env (Table rows)))
     @ (case archive_run env of
          ArchiveError err \<Rightarrow> [Error (message_or ''An error occurred'' err)]
        | OutputError err \<Rightarrow> []
        | OutputClosed None \<Rightarrow> [Error ''Failed to create ZIP file'']
        | OutputClosed (Some sz) \<Rightarrow> [Complete (''/api/download?id='' @ toString (now_zip env))])"
  by (simp add: POST_valid [OF assms] rows_loop_frames archive_phase_frames archive_phase_done
      split: archive_outcome.splits option.splits)

lemma strip_non_alnum_alnum: "c \<in> set (strip_non_alnum fid) \<Longrightarrow> is_alnum c"
  by (simp add: strip_non_alnum_def)

lemma GET_missing:
  "fileId = None \<or> fileId = Some [] \<Longrightarrow> GET h fileId = (JsonResponse 400 ''Missing file ID'', h)"
  by (auto simp: GET_def)

lemma GET_not_found:
  "fid \<noteq> [] \<Longrightarrow> files h (zip_path (host_tmpdir h) (strip_non_alnum fid)) = None \<Longrightarrow>
     GET h (Some fid) = (JsonResponse 404 ''File not found. It may have expired.'', h)"
  by (simp add: GET_def)

lemma GET_found:
  "fid \<noteq> [] \<Longrightarrow> files h (zip_path (host_tmpdir h) (strip_non_alnum fid)) = Some buf \<Longrightarrow>
     GET h (Some fid) =
       (FileResponse buf (zip_headers buf),
        (case unlink_error h (zip_path (host_tmpdir h) (strip_non_alnum fid)) of
           None \<Rightarrow> h\<lparr>files := (files h)(zip_path (host_tmpdir h) (strip_non_alnum fid) := None)\<rparr>
         | Some err \<Rightarrow> h))"
  by (simp add: GET_def unlinkSync_def split: option.splits)

lemmas get_eval =
  host_demo_def host_locked_def strip_non_alnum_def is_alnum_def zip_path_def zip_dir_def
  path_join_def normalize_def normalizeString_def normalize_step_def slash_def

text \<open>
  One iteration of the row loop, for a row that has an entry in the status array. When
  the search returns no candidate the row ends \<open>failed\<close> with cause \<open>No images found\<close>;
  when the search throws, the row ends \<open>failed\<close> with the exception's message; in both
  cases nothing is fetched or written. Otherwise the candidates are fetched in order up
  to and including the first viable one, whose bytes are written at the join of the
  working directory and identifier followed by extension; the row ends \<open>success\<close> when
  the write returns and \<open>failed\<close> with the exception's message when it throws. When no
  candidate is viable all are fetched, nothing is written and the row ends \<open>failed\<close> with
  cause \<open>Failed to download image\<close>. Every iteration ends in \<open>success\<close> or \<open>failed\<close>, and
  after the whole loop each row's entry is what its own iteration made of it.
\<close>

lemma row_processor_cases:
  assumes "i < length items"
  shows
  "(row_candidates env i row = Inr [] \<longrightarrow>
      status (row_after env t i row items) = failed
      \<and> error (row_after env t i row items) = Some ''No images found''
      \<and> fetches_of (row_effects env t i row items) = []
      \<and> writes_of (row_effects env t i row items) = [])
 \<and> (\<forall>err. row_candidates env i row = Inl err \<longrightarrow>
      status (row_after env t i row items) = failed
      \<and> error (row_after env t i row items) = Some (message_or ''Unknown error'' err)
      \<and> fetches_of (row_effects env t i row items) = []
      \<and> writes_of (row_effects env t i row items) = [])
 \<and> (\<forall>urls k buf ext.
      row_candidates env i row = Inr urls
      \<and> k < length urls
      \<and> (\<forall>m<k. downloadImage env i m (urls ! m) = None)
      \<and> downloadImage env i k (urls ! k) = Some (buf, ext) \<longrightarrow>
        fetches_of (row_effects env t i row items) = take (Suc k) urls
        \<and> writes_of (row_effects env t i row items) = [(row_file t row ext, buf)]
        \<and> (writeFileSync env i (row_file t row ext) buf = None \<longrightarrow>
             status (row_after env t i row items) = success)
        \<and> (\<forall>err. writeFileSync env i (row_file t row ext) buf = Some err \<longrightarrow>
             status (row_after env t i row items) = failed
             \<and> error (row_after env t i row items) = Some (message_or ''Unknown error'' err)))
 \<and> (\<forall>urls.
      row_candidates env i row = Inr urls \<and> urls \<noteq> []
      \<and> (\<forall>m<length urls. downloadImage env i m (urls ! m) = None) \<longrightarrow>
      status (row_after env t i row items) = failed
      \<and> error (row_after env t i row items) = Some ''Failed to download image''
      \<and> fetches_of (row_effects env t i row items) = urls
      \<and> writes_of (row_effects env t i row items) = [])
 \<and> (status (row_after env t i row items) = success
      \<or> status (row_after env t i row items) = failed)
 \<and> (\<forall>k<length rows.
       fst (rows_loop env t 0 rows (map initial_item rows)) ! k
         = row_after env t k (rows ! k) (map initial_item rows))"
proof (intro conjI impI allI)
  assume h: "row_candidates env i row = Inr []"
  then have s: "searchBingImages env i (replace_slashes (js_String (row_image_name row))) = Inr []"
    by (simp add: row_candidates_def row_phrase_def)
  from process_row_no_images [OF assms s]
  show "status (row_after env t i row items) = failed"
    and "error (row_after env t i row items) = Some ''No images found''"
    and "fetches_of (row_effects env t i row items) = []"
    and "writes_of (row_effects env t i row items) = []"
    by (simp_all add: row_after_def row_effects_def)
next
  fix err
  assume h: "row_candidates env i row = Inl err"
  then have s: "searchBingImages env i (replace_slashes (js_String (row_image_name row))) = Inl err"
    by (simp add: row_candidates_def row_phrase_def)
  from process_row_search_throws [OF assms s]
  show "status (row_after env t i row items) = failed"
    and "error (row_after env t i row items) = Some (message_or ''Unknown error'' err)"
    and "fetches_of (row_effects env t i row items) = []"
    and "writes_of (row_effects env t i row items) = []"
    by (simp_all add: row_after_def row_effects_def)
next
  fix urls k buf ext
  assume h: "row_candidates env i row = Inr urls
      \<and> k < length urls
      \<and> (\<forall>m<k. downloadImage env i m (urls ! m) = None)
      \<and> downloadImage env i k (urls ! k) = Some (buf, ext)"
  have s: "searchBingImages env i (replace_slashes (js_String (row_image_name row))) = Inr urls"
    using h by (simp add: row_candidates_def row_phrase_def)
  note fv = process_row_first_viable [OF assms s, of k buf ext t]
  have k: "k < length urls" using h by simp
  have n: "\<And>m. m < k \<Longrightarrow> downloadImage env i m (urls ! m) = None"
    using h by simp
  have v: "downloadImage env i k (urls ! k) = Some (buf, ext)"
    using h by simp
  show "fetches_of (row_effects env t i row items) = take (Suc k) urls"
    using fv(1) [OF k n v] by (simp add: row_effects_def)
  show "writes_of (row_effects env t i row items) = [(row_file t row ext, buf)]"
    using fv(2) [OF k n v] by (simp add: row_effects_def row_file_def)
  show "status (row_after env t i row items) = success"
    if "writeFileSync env i (row_file t row ext) buf = None"
    using fv(3) [OF k n v] that by (simp add: row_after_def row_file_def)
  show "status (row_after env t i row items) = failed"
    if "writeFileSync env i (row_file t row ext) buf = Some err" for err
    using fv(4) [OF k n v, of err] that by (simp add: row_after_def row_file_def)
  show "error (row_after env t i row items) = Some (message_or ''Unknown error'' err)"
    if "writeFileSync env i (row_file t row ext) buf = Some err" for err
    using fv(4) [OF k n v, of err] that by (simp add: row_after_def row_file_def)
next
  fix urls
  assume h: "row_candidates env i row = Inr urls \<and> urls \<noteq> []
      \<and> (\<forall>m<length urls. downloadImage env i m (urls ! m) = None)"
  have s: "searchBingImages env i (replace_slashes (js_String (row_image_name row))) = Inr urls"
    using h by (simp add: row_candidates_def row_phrase_def)
  have ne: "urls \<noteq> []" using h by simp
  have n: "\<And>m. m < length urls \<Longrightarrow> downloadImage env i m (urls ! m) = None"
    using h by simp
  from process_row_exhausted [OF assms s ne n]
  show "status (row_after env t i row items) = failed"
    and "error (row_after env t i row items) = Some ''Failed to download image''"
    and "fetches_of (row_effects env t i row items) = urls"
    and "writes_of (row_effects env t i row items) = []"
    by (simp_all add: row_after_def row_effects_def)
next
  show "status (row_after env t i row items) = success
      \<or> status (row_after env t i row items) = failed"
    using process_row_terminal [OF assms] by (simp add: row_after_def)
next
  fix k assume "k < length rows"
  then show "fst (rows_loop env t 0 rows (map initial_item rows)) ! k
         = row_after env t k (rows ! k) (map initial_item rows)"
    using rows_loop_nth [of k rows 0 "map initial_item rows" env t]
    by (simp add: row_after_def)
qed

text \<open>
  The phrase resolver. A phrase with a lone surrogate makes the encoding throw, and the
  exception leaves the function. For any other phrase the function returns a list of at
  most five locators: the empty list when the request fails, and otherwise the first five
  locators of the first tier that yields any.
\<close>

lemma searchBingImages_cases:
  "(has_lone_surrogate query \<longrightarrow> searchBingImages env i query = Inl (JsError ''URI malformed''))
   \<and> (\<not> has_lone_surrogate query \<longrightarrow>
        (\<exists>urls. searchBingImages env i query = Inr urls \<and> length urls \<le> 5)
        \<and> (\<forall>err. axios_get_page env i (search_url (percent_encode query)) = Inl err \<longrightarrow>
              searchBingImages env i query = Inr [])
        \<and> (\<forall>pg. axios_get_page env i (search_url (percent_encode query)) = Inr pg \<longrightarrow>
              (tier1 env pg \<noteq> [] \<longrightarrow> searchBingImages env i query = Inr (take 5 (tier1 env pg)))
              \<and> (tier1 env pg = [] \<and> tier2 pg \<noteq> [] \<longrightarrow>
                   searchBingImages env i query = Inr (take 5 (tier2 pg)))
              \<and> (tier1 env pg = [] \<and> tier2 pg = [] \<longrightarrow>
                   searchBingImages env i query = Inr (take 5 (tier3 pg)))))"
  by (auto simp: searchBingImages_def search_try_def encodeURIComponent_def Let_def
      split: sum.splits)

lemma searchBingImages_demo:
  "length (tier1 env_demo page_tier1) = 6
   \<and> searchBingImages env_demo 0 ''cat'' =
       Inr [''http://img/m1'', ''http://img/m2'', ''http://img/m3'', ''http://img/m4'',
            ''http://img/m5'']
   \<and> searchBingImages env_demo (Suc 0) ''cat'' = Inr []
   \<and> searchBingImages env_demo (Suc (Suc 0)) ''cat'' = Inr [''http://thumb/a'', ''https://thumb/b'']
   \<and> searchBingImages env_demo (Suc (Suc (Suc 0))) ''cat'' = Inr [''https://raw/z.jpg'']"
  by (simp add: search_eval)

lemma rows_demo_statuses:
  "map status (fst (rows_loop env_demo (temp_dir env_demo) 0 rows_demo (map initial_item rows_demo)))
     = [success, failed, failed, failed]
   \<and> map error (fst (rows_loop env_demo (temp_dir env_demo) 0 rows_demo (map initial_item rows_demo)))
     = [None, Some ''No images found'', Some ''Failed to download image'',
        Some ''ENOENT: no such file or directory'']"
  by (simp add: post_eval rows_demo_def)

section \<open>The claims\<close>

subsection \<open>Progress frames\<close>

text \<open>
  Claim C2. For every table that passes validation, with \<open>N\<close> rows, the run writes
  \<open>2 * N + 1\<close> progress frames, hence at least \<open>N + 1\<close>; every snapshot has exactly
  \<open>N\<close> entries, and its identifiers and names are those of the input rows in input order.
\<close>

theorem progress_snapshots:
  assumes "valid_table rows"
  shows "length (snapshots_of (POST env (Table rows))) = 2 * length rows + 1
    \<and> length rows + 1 \<le> length (snapshots_of (POST env (Table rows)))
    \<and> (\<forall>s \<in> set (snapshots_of (POST env (Table rows))).
          length s = length rows
          \<and> map item_id s = map (\<lambda>row. js_String (row_id row)) rows
          \<and> map image_name s = map (\<lambda>row. js_String (row_image_name row)) rows)"
proof -
  let ?loop = "snapshots_of (snd (rows_loop env (temp_dir env) 0 rows (map initial_item rows)))"
  have eq: "snapshots_of (POST env (Table rows)) = map initial_item rows # ?loop"
    using assms by (cases rows) (simp_all add: POST_snapshots)
  have n: "length ?loop = 2 * length rows"
    by (rule rows_loop_snapshot_count)
  have shape: "length s = length rows
          \<and> map item_id s = map (\<lambda>row. js_String (row_id row)) rows
          \<and> map image_name s = map (\<lambda>row. js_String (row_image_name row)) rows"
    if "s \<in> set (map initial_item rows # ?loop)" for s
  proof (cases "s = map initial_item rows")
    case True
    then show ?thesis by (simp add: initial_item_def)
  next
    case False
    with that have "s \<in> set ?loop" by simp
    from rows_loop_snapshot_shape [OF this] show ?thesis by (simp add: initial_item_def)
  qed
  show ?thesis
    unfolding eq using n shape by simp
qed

theorem progress_snapshots_witness:
  "valid_table rows_demo
   \<and> length (snapshots_of (POST env_demo (Table rows_demo))) = 9
   \<and> length rows_demo + 1 \<le> length (snapshots_of (POST env_demo (Table rows_demo)))
   \<and> length (last (snapshots_of (POST env_demo (Table rows_demo)))) = 4
   \<and> map item_id (last (snapshots_of (POST env_demo (Table rows_demo)))) = [''1'', ''2'', ''3'', ''a/b'']
   \<and> map image_name (last (snapshots_of (POST env_demo (Table rows_demo))))
       = [''red/cat'', ''zzqqxx'', ''dog'', ''bird'']"
proof -
  have v: "valid_table rows_demo" by (simp add: rows_demo_def)
  note t = progress_snapshots [OF v, of env_demo]
  have n: "length (snapshots_of (POST env_demo (Table rows_demo))) = 9"
    using t by (simp add: rows_demo_def)
  then have "snapshots_of (POST env_demo (Table rows_demo)) \<noteq> []" by auto
  then have m: "last (snapshots_of (POST env_demo (Table rows_demo)))
      \<in> set (snapshots_of (POST env_demo (Table rows_demo)))"
    by simp
  from t [THEN conjunct2, THEN conjunct2, rule_format, OF m] v n show ?thesis
    by (simp add: rows_demo_def)
qed

subsection \<open>Validation\<close>

text \<open>
  Claim C4. A table with no rows, or whose first row lacks the \<open>id\<close> or the
  \<open>image_name\<close> key, is rejected: the only frame is one error frame, there is no
  progress frame, and no row is processed and the file system is not touched. Only the
  first row is looked at: a table whose first row has both keys is accepted and its
  initial snapshot is written, whatever the later rows hold.
\<close>

theorem ingestion_rejects:
  "(rows = [] \<longrightarrow>
      frames_of (POST env (Table rows)) = [Error ''Excel file is empty'']
      \<and> snapshots_of (POST env (Table rows)) = []
      \<and> work_of (POST env (Table rows)) = [])
 \<and> (rows = r # rs \<and> (row_id r = None \<or> row_image_name r = None) \<longrightarrow>
      frames_of (POST env (Table rows)) = [Error columns_message]
      \<and> snapshots_of (POST env (Table rows)) = []
      \<and> work_of (POST env (Table rows)) = [])
 \<and> (rows = r # rs \<and> row_id r \<noteq> None \<and> row_image_name r \<noteq> None \<longrightarrow>
      hd (frames_of (POST env (Table rows))) = Progress (map initial_item rows))"
  by (auto simp: POST_def run_request_def Let_def case_prod_beta)

theorem ingestion_rejects_witness:
  "frames_of (POST env_demo (Table [])) = [Error ''Excel file is empty'']
   \<and> work_of (POST env_demo (Table [])) = []
   \<and> frames_of (POST env_demo (Table [row_no_name, row_cat])) = [Error columns_message]
   \<and> snapshots_of (POST env_demo (Table [row_no_name, row_cat])) = []
   \<and> work_of (POST env_demo (Table [row_no_name, row_cat])) = []
   \<and> hd (frames_of (POST env_demo (Table [row_cat, row_no_name])))
       = Progress (map initial_item [row_cat, row_no_name])"
  using ingestion_rejects [where rows = "[]" and env = env_demo]
    ingestion_rejects [where rows = "[row_no_name, row_cat]" and env = env_demo
      and r = row_no_name and rs = "[row_cat]"]
    ingestion_rejects [where rows = "[row_cat, row_no_name]" and env = env_demo
      and r = row_cat and rs = "[row_no_name]"]
  by (simp add: row_no_name_def row_cat_def)

subsection \<open>Closing the writer\<close>

text \<open>
  Claim C8. On the three validation exits (no file, no rows, a first row without both
  keys) the writer's \<open>close\<close> is called in the branch and once more by \<open>finally\<close>:
  twice, not once. On an unreadable upload, and on a table that passes validation when
  the archiver reports an error or the output stream closes, it is called exactly once.
  When the output stream reports an error the archive promise is never settled, \<open>finally\<close>
  is never reached, and \<open>close\<close> is not called at all.
\<close>

theorem validation_exits_close_twice:
  "POST env NoFile = [Send (Error ''No file uploaded''), Close, Close]
   \<and> POST env (Table []) = [Send (Error ''Excel file is empty''), Close, Close]
   \<and> POST env (Table [row_no_name]) = [Send (Error columns_message), Close, Close]
   \<and> count_list (POST env req) Close =
       (case req of
          NoFile \<Rightarrow> 2
        | Unreadable err \<Rightarrow> 1
        | Table rows \<Rightarrow>
            if valid_table rows
            then (case archive_run env of
                    ArchiveError err \<Rightarrow> 1
                  | OutputError err \<Rightarrow> 0
                  | OutputClosed stats \<Rightarrow> 1)
            else 2)"
  using POST_close_calls [of env req]
  by (simp add: POST_def run_request_def row_no_name_def)

subsection \<open>The row processor\<close>

text \<open>
  Claim C1. The claim has the bytes of the first viable asset written to the working
  directory. The row loop joins the working directory with the identifier as it stands
  in the table. For the one-row table with identifier \<open>../../etc/cron.d/x\<close> and name
  \<open>cat\<close> the search returns five candidates, the first fetch fails and the second is
  viable with extension \<open>.png\<close>; the join normalises to \<open>/etc/cron.d/x.png\<close>, the bytes
  are written there, outside the working directory \<open>/tmp/image-download-17\<close>, no further
  candidate is fetched, and the row is reported \<open>success\<close>.
\<close>

theorem row_write_escapes_working_directory:
  "valid_table [row_escape]
   \<and> temp_dir env_demo = ''/tmp/image-download-17''
   \<and> row_candidates env_demo 0 row_escape =
       Inr [''http://img/m1'', ''http://img/m2'', ''http://img/m3'', ''http://img/m4'',
            ''http://img/m5'']
   \<and> fetches_of (row_effects env_demo (temp_dir env_demo) 0 row_escape [initial_item row_escape])
       = [''http://img/m1'', ''http://img/m2'']
   \<and> writes_of (row_effects env_demo (temp_dir env_demo) 0 row_escape [initial_item row_escape])
       = [(''/etc/cron.d/x.png'', big_image)]
   \<and> \<not> startsWith ''/etc/cron.d/x.png'' (temp_dir env_demo)
   \<and> status (row_after env_demo (temp_dir env_demo) 0 row_escape [initial_item row_escape])
       = success
   \<and> writes_of (POST env_demo (Table [row_escape])) = [(''/etc/cron.d/x.png'', big_image)]
   \<and> map status (last (snapshots_of (POST env_demo (Table [row_escape])))) = [success]"
proof -
  have t: "temp_dir env_demo = ''/tmp/image-download-17''"
    by (simp add: post_eval)
  have c: "row_candidates env_demo 0 row_escape =
       Inr [''http://img/m1'', ''http://img/m2'', ''http://img/m3'', ''http://img/m4'',
            ''http://img/m5'']"
    by (simp add: search_eval row_escape_def)
  have e: "row_effects env_demo ''/tmp/image-download-17'' 0 row_escape [initial_item row_escape]
      = [Send (Progress [\<lparr>item_id = ''../../etc/cron.d/x'', image_name = ''cat'',
                          status = downloading, error = None\<rparr>]),
         Search ''cat'', Fetch ''http://img/m1'', Fetch ''http://img/m2'',
         WriteFile ''/etc/cron.d/x.png'' big_image,
         Send (Progress [\<lparr>item_id = ''../../etc/cron.d/x'', image_name = ''cat'',
                          status = success, error = None\<rparr>]),
         Pause 500]"
    by (simp add: row_effects_def post_eval row_escape_def)
  have a: "status (row_after env_demo ''/tmp/image-download-17'' 0 row_escape
      [initial_item row_escape]) = success"
    by (simp add: row_after_def post_eval row_escape_def)
  have w: "writes_of (POST env_demo (Table [row_escape])) = [(''/etc/cron.d/x.png'', big_image)]"
    by (simp add: post_eval row_escape_def)
  have s: "map status (last (snapshots_of (POST env_demo (Table [row_escape])))) = [success]"
    by (simp add: post_eval row_escape_def)
  show ?thesis
    unfolding t e using c a w s by (simp add: row_escape_def)
qed

subsection \<open>The phrase resolver\<close>

text \<open>
  Claim C5. The claim has the resolver return a list for every phrase and never
  propagate an error. The phrase is percent-encoded before the \<open>try\<close> block is
  entered, and \<open>encodeURIComponent\<close> throws on a lone surrogate: for the phrase \<open>cat\<close>
  followed by the lone surrogate \<open>D800\<close> the resolver returns no list but throws
  \<open>URI malformed\<close>, on every host. In a run over the one-row table with that name the
  exception reaches the row loop, and the row ends \<open>failed\<close> with that message.
\<close>

theorem search_throws_on_lone_surrogate:
  "has_lone_surrogate phrase_lone
   \<and> encodeURIComponent phrase_lone = Inl (JsError ''URI malformed'')
   \<and> searchBingImages env i phrase_lone = Inl (JsError ''URI malformed'')
   \<and> valid_table [row_lone]
   \<and> searches_of (POST env_demo (Table [row_lone])) = [phrase_lone]
   \<and> fetches_of (POST env_demo (Table [row_lone])) = []
   \<and> map status (last (snapshots_of (POST env_demo (Table [row_lone])))) = [failed]
   \<and> map error (last (snapshots_of (POST env_demo (Table [row_lone])))) = [Some ''URI malformed'']"
proof -
  have h: "has_lone_surrogate phrase_lone"
    by (simp add: phrase_lone_def)
  have e: "encodeURIComponent phrase_lone = Inl (JsError ''URI malformed'')"
    using h by (simp add: encodeURIComponent_def)
  have s: "searchBingImages env i phrase_lone = Inl (JsError ''URI malformed'')" for env i
    using e by (simp add: searchBingImages_def)
  have r: "replace_slashes phrase_lone = phrase_lone"
    by (simp add: replace_slashes_def phrase_lone_def slash_def backslash_def)
  have p: "POST env_demo (Table [row_lone]) =
      [Send (Progress [\<lparr>item_id = ''5'', image_name = phrase_lone, status = pending, error = None\<rparr>]),
       Mkdir ''/tmp/image-download-17'',
       Send (Progress [\<lparr>item_id = ''5'', image_name = phrase_lone, status = downloading,
                        error = None\<rparr>]),
       Search phrase_lone,
       Send (Progress [\<lparr>item_id = ''5'', image_name = phrase_lone, status = failed,
                        error = Some ''URI malformed''\<rparr>]),
       Pause 500,
       Mkdir ''/tmp/image-downloader-zips'',
       Archive ''/tmp/image-download-17'' ''/tmp/image-downloader-zips/images-18.zip'',
       Send (Complete ''/api/download?id=18''),
       Rm ''/tmp/image-download-17'',
       Close]"
    by (simp add: POST_def run_request_def process_row_def attempt_row_def s r
        archive_phase_def cleanup_def temp_dir_def zip_dir_def zip_path_def path_join_def
        normalize_def normalizeString_def normalize_step_def slash_def toString.simps
        digit_char_def initial_item_def set_status_def set_failed_def env_demo_def Let_def
        row_lone_def)
  show ?thesis
    unfolding p using h e s
    by (simp add: row_lone_def snapshots_of_def searches_of_def fetches_of_def)
qed

subsection \<open>Paths of the written files\<close>

text \<open>
  Claim C10. In a run over a table that passes validation, every file written has the
  path \<open>path.join\<close> of the working directory and some row's identifier, verbatim,
  followed by one of the four extensions; the phrases searched for are the rows' names
  with every slash and backslash replaced by a space, in row order. The identifier is not
  sanitized: there is an input with an identifier containing \<open>../\<close> whose file is
  written at a path that does not start with the working directory.
\<close>

theorem written_paths:
  assumes "valid_table rows"
  shows
  "(\<forall>(p, b) \<in> set (writes_of (POST env (Table rows))).
      \<exists>row \<in> set rows. \<exists>ext \<in> set [''.jpg'', ''.png'', ''.gif'', ''.webp''].
        p = path_join [temp_dir env, js_String (row_id row) @ ext])
   \<and> searches_of (POST env (Table rows)) =
       map (\<lambda>row. replace_slashes (js_String (row_image_name row))) rows
   \<and> (\<exists>env' rows' p b.
        valid_table rows'
        \<and> (\<exists>row \<in> set rows'. str_includes (js_String (row_id row)) ''../'')
        \<and> (p, b) \<in> set (writes_of (POST env' (Table rows')))
        \<and> \<not> startsWith p (temp_dir env'))"
proof (intro conjI)
  show "\<forall>(p, b) \<in> set (writes_of (POST env (Table rows))).
      \<exists>row \<in> set rows. \<exists>ext \<in> set [''.jpg'', ''.png'', ''.gif'', ''.webp''].
        p = path_join [temp_dir env, js_String (row_id row) @ ext]"
    using rows_loop_writes [of _ _ env "temp_dir env" 0 rows "map initial_item rows"]
    unfolding POST_writes [OF assms] row_file_def by blast
  show "searches_of (POST env (Table rows)) =
       map (\<lambda>row. replace_slashes (js_String (row_image_name row))) rows"
    using POST_searches [OF assms, of env] .
  have w: "writes_of (POST env_demo (Table [row_escape])) = [(''/etc/cron.d/x.png'', big_image)]"
    by (simp add: post_eval row_escape_def)
  have t: "temp_dir env_demo = ''/tmp/image-download-17''"
    by (simp add: post_eval)
  have "valid_table [row_escape]
        \<and> (\<exists>row \<in> set [row_escape]. str_includes (js_String (row_id row)) ''../'')
        \<and> (''/etc/cron.d/x.png'', big_image) \<in> set (writes_of (POST env_demo (Table [row_escape])))
        \<and> \<not> startsWith ''/etc/cron.d/x.png'' (temp_dir env_demo)"
    unfolding w t by (simp add: row_escape_def)
  then show "\<exists>env' rows' p b.
        valid_table rows'
        \<and> (\<exists>row \<in> set rows'. str_includes (js_String (row_id row)) ''../'')
        \<and> (p, b) \<in> set (writes_of (POST env' (Table rows')))
        \<and> \<not> startsWith p (temp_dir env')"
    by blast
qed

theorem written_paths_witness:
  "valid_table rows_demo
   \<and> searches_of (POST env_demo (Table rows_demo)) = [''red cat'', ''zzqqxx'', ''dog'', ''bird'']
   \<and> writes_of (POST env_demo (Table rows_demo)) =
       [(''/tmp/image-download-17/1.png'', big_image),
        (''/tmp/image-download-17/a/b.webp'', big_image)]
   \<and> temp_dir env_demo = ''/tmp/image-download-17''"
proof -
  have v: "valid_table rows_demo" by (simp add: rows_demo_def)
  have w: "writes_of (POST env_demo (Table rows_demo)) =
       [(''/tmp/image-download-17/1.png'', big_image),
        (''/tmp/image-download-17/a/b.webp'', big_image)]"
    by (simp add: post_eval rows_demo_def regex_murls.simps match_murl_def match_scheme_def
        murl_key_def dquote_def)
  have t: "temp_dir env_demo = ''/tmp/image-download-17''"
    by (simp add: post_eval)
  show ?thesis
    using written_paths [OF v, of env_demo] v w t
    by (simp add: rows_demo_def replace_slashes_def slash_def backslash_def)
qed

subsection \<open>The pause between rows\<close>

text \<open>
  Claim C9. With the search surface unreachable every row ends in the zero-candidates
  branch, whose \<open>continue\<close> leaves the iteration before the pause: the four rows are
  searched one after the other, in input order, and no pause is executed between them.
  In general an iteration pauses exactly when its search did not return the empty list:
  when it found a candidate, or threw.
\<close>

theorem no_pause_after_empty_search:
  "work_of (POST env_offline (Table rows_demo)) =
     [Mkdir ''/tmp/image-download-17'',
      Search ''red cat'', Search ''zzqqxx'', Search ''dog'', Search ''bird'',
      Mkdir ''/tmp/image-downloader-zips'',
      Archive ''/tmp/image-download-17'' ''/tmp/image-downloader-zips/images-18.zip'',
      Rm ''/tmp/image-download-17'']
   \<and> (Pause 500 \<in> set (row_effects env t i row items)) = (row_candidates env i row \<noteq> Inr [])"
proof
  show "work_of (POST env_offline (Table rows_demo)) =
     [Mkdir ''/tmp/image-download-17'',
      Search ''red cat'', Search ''zzqqxx'', Search ''dog'', Search ''bird'',
      Mkdir ''/tmp/image-downloader-zips'',
      Archive ''/tmp/image-download-17'' ''/tmp/image-downloader-zips/images-18.zip'',
      Rm ''/tmp/image-download-17'']"
    by (simp add: offline_eval)
  show "(Pause 500 \<in> set (row_effects env t i row items)) = (row_candidates env i row \<noteq> Inr [])"
    by (rule process_row_pause)
qed

subsection \<open>Removal of the working directory\<close>

text \<open>
  Claim C7. When the archiver reports an error the exception leaves the block before the
  cleanup: the working directory has been created and written to, the request ends with
  an error frame, and no removal is attempted. When the archive file is merely absent
  after the close, the removal is attempted.
\<close>

theorem archive_error_skips_cleanup:
  "work_of (POST env_archive_error (Table [row_cat])) =
     [Mkdir ''/tmp/image-download-17'',
      Search ''cat'', Fetch ''http://img/m1'', Fetch ''http://img/m2'',
      WriteFile ''/tmp/image-download-17/1.png'' big_image, Pause 500,
      Mkdir ''/tmp/image-downloader-zips'',
      Archive ''/tmp/image-download-17'' ''/tmp/image-downloader-zips/images-18.zip'']
   \<and> last (frames_of (POST env_archive_error (Table [row_cat]))) = Error ''archive failed''
   \<and> Rm ''/tmp/image-download-17'' \<in> set (POST env_no_zip (Table [row_cat]))"
  by (simp add: offline_eval)

subsection \<open>The complete frame\<close>

text \<open>
  Claim C6, as amended. For a table that passes validation, a complete frame is written
  only after the archive file has been found to exist, and it carries the retrieval
  address of the archive: it is written exactly when the output stream closed and the
  file exists. The size of the file is not part of the condition.
\<close>

theorem complete_after_existence_check:
  assumes "valid_table rows"
  shows
  "(Complete url \<in> set (frames_of (POST env (Table rows)))) =
     ((\<exists>sz. archive_run env = OutputClosed (Some sz))
      \<and> url = ''/api/download?id='' @ toString (now_zip env))"
  by (auto simp: POST_frames [OF assms] split: archive_outcome.splits option.splits)

theorem complete_after_existence_check_witness:
  "valid_table [row_cat]
   \<and> archive_run env_demo = OutputClosed (Some 2364)
   \<and> Complete ''/api/download?id=18'' \<in> set (frames_of (POST env_demo (Table [row_cat])))
   \<and> Complete ''/api/download?id=17'' \<notin> set (frames_of (POST env_demo (Table [row_cat])))
   \<and> archive_run env_no_zip = OutputClosed None
   \<and> Complete ''/api/download?id=18'' \<notin> set (frames_of (POST env_no_zip (Table [row_cat])))
   \<and> Complete ''/api/download?id=18'' \<notin> set (frames_of (POST env_archive_error (Table [row_cat])))
   \<and> Complete ''/api/download?id=18'' \<notin> set (frames_of (POST env_stream_error (Table [row_cat])))"
proof -
  have v: "valid_table [row_cat]" by (simp add: row_cat_def)
  have a: "archive_run env_demo = OutputClosed (Some 2364)"
    "archive_run env_archive_error = ArchiveError (JsError ''archive failed'')"
    "archive_run env_no_zip = OutputClosed None"
    "archive_run env_stream_error = OutputError (JsError ''ENOSPC: no space left on device, write'')"
    by (simp_all add: env_demo_def env_archive_error_def env_no_zip_def env_stream_error_def)
  have u: "''/api/download?id='' @ toString (now_zip env_demo) = ''/api/download?id=18''"
    by (simp add: env_demo_def toString.simps digit_char_def)
  show ?thesis
    using complete_after_existence_check [OF v, of "''/api/download?id=18''" env_demo]
      complete_after_existence_check [OF v, of "''/api/download?id=17''" env_demo]
      complete_after_existence_check [OF v, of "''/api/download?id=18''" env_archive_error]
      complete_after_existence_check [OF v, of "''/api/download?id=18''" env_no_zip]
      complete_after_existence_check [OF v, of "''/api/download?id=18''" env_stream_error]
      v a u
    by simp
qed

text \<open>
  The claim as stated fails. An archive file that exists with size zero is still
  announced by a complete frame. And when the output stream reports an error, which no
  listener receives, the run stops at the archive step: the last frame is the progress
  frame of the last row, no error frame is written and the writer is not closed.
\<close>

theorem complete_despite_empty_archive:
  "archive_run env_empty_zip = OutputClosed (Some 0)
   \<and> Send (Complete ''/api/download?id=18'') \<in> set (POST env_empty_zip (Table [row_cat]))
   \<and> archive_run env_stream_error
       = OutputError (JsError ''ENOSPC: no space left on device, write'')
   \<and> last (POST env_stream_error (Table [row_cat]))
       = Archive ''/tmp/image-download-17'' ''/tmp/image-downloader-zips/images-18.zip''
   \<and> last (frames_of (POST env_stream_error (Table [row_cat])))
       = Progress [\<lparr>item_id = ''1'', image_name = ''cat'', status = success, error = None\<rparr>]
   \<and> Close \<notin> set (POST env_stream_error (Table [row_cat]))"
  by (simp add: offline_eval frames_of_def)

subsection \<open>Retrieval\<close>

text \<open>
  Claim C3, as amended. A request whose identifier is absent or empty is answered 400.
  Otherwise only the alphanumeric characters of the identifier enter the path; when no
  file is at that path the answer is 404; when one is, its bytes are returned with the
  content type \<open>application/zip\<close> and the fixed download filename, and the removal of the
  file is attempted. When the removal succeeds the file is gone and a second request with
  the same identifier is answered 404; when the removal throws, the exception is ignored
  and the host is left as it was.
\<close>

theorem GET_read_once:
  "(fileId = None \<or> fileId = Some [] \<longrightarrow>
      GET h fileId = (JsonResponse 400 ''Missing file ID'', h))
   \<and> (\<forall>fid. fileId = Some fid \<and> fid \<noteq> [] \<longrightarrow>
        (\<forall>c \<in> set (strip_non_alnum fid). is_alnum c)
        \<and> (files h (zip_path (host_tmpdir h) (strip_non_alnum fid)) = None \<longrightarrow>
             GET h fileId = (JsonResponse 404 ''File not found. It may have expired.'', h))
        \<and> (\<forall>buf. files h (zip_path (host_tmpdir h) (strip_non_alnum fid)) = Some buf \<longrightarrow>
             fst (GET h fileId) = FileResponse buf (zip_headers buf)
             \<and> (''Content-Type'', ''application/zip'') \<in> set (zip_headers buf)
             \<and> (''Content-Disposition'', ''attachment; filename='' @ dquote # ''images.zip'' @ [dquote])
                  \<in> set (zip_headers buf)
             \<and> (unlink_error h (zip_path (host_tmpdir h) (strip_non_alnum fid)) = None \<longrightarrow>
                  snd (GET h fileId) =
                    h\<lparr>files := (files h)(zip_path (host_tmpdir h) (strip_non_alnum fid) := None)\<rparr>
                  \<and> fst (GET (snd (GET h fileId)) fileId)
                      = JsonResponse 404 ''File not found. It may have expired.'')
             \<and> (unlink_error h (zip_path (host_tmpdir h) (strip_non_alnum fid)) \<noteq> None \<longrightarrow>
                  snd (GET h fileId) = h)))"
proof (intro conjI allI impI)
  assume "fileId = None \<or> fileId = Some []"
  then show "GET h fileId = (JsonResponse 400 ''Missing file ID'', h)"
    by (rule GET_missing)
next
  fix fid c assume "fileId = Some fid \<and> fid \<noteq> []"
  show "\<forall>c \<in> set (strip_non_alnum fid). is_alnum c"
    by (simp add: strip_non_alnum_def)
next
  fix fid
  assume "fileId = Some fid \<and> fid \<noteq> []"
    and "files h (zip_path (host_tmpdir h) (strip_non_alnum fid)) = None"
  then show "GET h fileId = (JsonResponse 404 ''File not found. It may have expired.'', h)"
    by (simp add: GET_not_found)
next
  fix fid buf
  assume a: "fileId = Some fid \<and> fid \<noteq> []"
    and f: "files h (zip_path (host_tmpdir h) (strip_non_alnum fid)) = Some buf"
  let ?p = "zip_path (host_tmpdir h) (strip_non_alnum fid)"
  from a f have g: "GET h fileId =
       (FileResponse buf (zip_headers buf),
        (case unlink_error h ?p of
           None \<Rightarrow> h\<lparr>files := (files h)(?p := None)\<rparr>
         | Some err \<Rightarrow> h))"
    by (simp add: GET_found)
  show "fst (GET h fileId) = FileResponse buf (zip_headers buf)"
    by (simp add: g)
  show "(''Content-Type'', ''application/zip'') \<in> set (zip_headers buf)"
    by (simp add: zip_headers_def)
  show "(''Content-Disposition'', ''attachment; filename='' @ dquote # ''images.zip'' @ [dquote])
          \<in> set (zip_headers buf)"
    by (simp add: zip_headers_def)
  show "snd (GET h fileId) = h\<lparr>files := (files h)(?p := None)\<rparr>"
    if "unlink_error h ?p = None"
    using that by (simp add: g)
  show "fst (GET (snd (GET h fileId)) fileId) = JsonResponse 404 ''File not found. It may have expired.''"
    if u: "unlink_error h ?p = None"
  proof -
    have s: "snd (GET h fileId) = h\<lparr>files := (files h)(?p := None)\<rparr>"
      using u by (simp add: g)
    have "GET (h\<lparr>files := (files h)(?p := None)\<rparr>) (Some fid) =
        (JsonResponse 404 ''File not found. It may have expired.'', h\<lparr>files := (files h)(?p := None)\<rparr>)"
      using a by (intro GET_not_found) simp_all
    with a s show ?thesis by simp
  qed
  show "snd (GET h fileId) = h" if "unlink_error h ?p \<noteq> None"
    using that by (auto simp: g)
qed

theorem GET_read_once_witness:
  "GET host_demo None = (JsonResponse 400 ''Missing file ID'', host_demo)
   \<and> GET host_demo (Some ''99'') = (JsonResponse 404 ''File not found. It may have expired.'', host_demo)
   \<and> fst (GET host_demo (Some ''../1/8'')) = FileResponse big_image (zip_headers big_image)
   \<and> fst (GET (snd (GET host_demo (Some ''../1/8''))) (Some ''../1/8''))
       = JsonResponse 404 ''File not found. It may have expired.''
   \<and> snd (GET host_locked (Some ''18'')) = host_locked"
proof -
  have p: "zip_path (host_tmpdir host_demo) (strip_non_alnum ''../1/8'')
        = ''/tmp/image-downloader-zips/images-18.zip''"
    "zip_path (host_tmpdir host_locked) (strip_non_alnum ''18'')
        = ''/tmp/image-downloader-zips/images-18.zip''"
    "zip_path (host_tmpdir host_demo) (strip_non_alnum ''99'')
        = ''/tmp/image-downloader-zips/images-99.zip''"
    by (simp_all add: get_eval)
  have f: "files host_demo ''/tmp/image-downloader-zips/images-18.zip'' = Some big_image"
    "files host_locked ''/tmp/image-downloader-zips/images-18.zip'' = Some big_image"
    "files host_demo ''/tmp/image-downloader-zips/images-99.zip'' = None"
    by (simp_all add: host_demo_def host_locked_def)
  have u: "unlink_error host_demo ''/tmp/image-downloader-zips/images-18.zip'' = None"
    "unlink_error host_locked ''/tmp/image-downloader-zips/images-18.zip''
       = Some (JsError ''EPERM: operation not permitted'')"
    by (simp_all add: host_demo_def host_locked_def)
  note g0 = GET_read_once [of None host_demo, THEN conjunct1]
  note g1 = GET_read_once [of "Some ''99''" host_demo, THEN conjunct2, rule_format, of "''99''"]
  note g2 = GET_read_once [of "Some ''../1/8''" host_demo, THEN conjunct2, rule_format,
      of "''../1/8''"]
  note g3 = GET_read_once [of "Some ''18''" host_locked, THEN conjunct2, rule_format, of "''18''"]
  have a0: "GET host_demo None = (JsonResponse 400 ''Missing file ID'', host_demo)"
    using g0 by simp
  have a1: "GET host_demo (Some ''99'')
      = (JsonResponse 404 ''File not found. It may have expired.'', host_demo)"
    using g1 p f by simp
  have f2: "files host_demo (zip_path (host_tmpdir host_demo) (strip_non_alnum ''../1/8''))
      = Some big_image"
    and u2: "unlink_error host_demo (zip_path (host_tmpdir host_demo) (strip_non_alnum ''../1/8''))
      = None"
    and f3: "files host_locked (zip_path (host_tmpdir host_locked) (strip_non_alnum ''18''))
      = Some big_image"
    and u3: "unlink_error host_locked (zip_path (host_tmpdir host_locked) (strip_non_alnum ''18''))
      \<noteq> None"
    using p f u by simp_all
  have h2: "Some ''../1/8'' = Some ''../1/8'' \<and> ''../1/8'' \<noteq> []"
    and h3: "Some ''18'' = Some ''18'' \<and> ''18'' \<noteq> []"
    by simp_all
  note r2 = g2 [OF h2, THEN conjunct2, THEN conjunct2, rule_format, OF f2]
  note r3 = g3 [OF h3, THEN conjunct2, THEN conjunct2, rule_format, OF f3]
  have a2: "fst (GET host_demo (Some ''../1/8'')) = FileResponse big_image (zip_headers big_image)
      \<and> fst (GET (snd (GET host_demo (Some ''../1/8''))) (Some ''../1/8''))
          = JsonResponse 404 ''File not found. It may have expired.''"
    using r2 u2 by blast
  have a3: "snd (GET host_locked (Some ''18'')) = host_locked"
    using r3 u3 by blast
  show ?thesis using a0 a1 a2 a3 by blast
qed

text \<open>
  The claim as stated fails twice: an identifier that is present but empty is answered
  400, neither 404 nor the archive; and on a host that refuses the removal the second
  request returns the archive again.
\<close>

theorem GET_claim_fails:
  "fst (GET host_demo (Some [])) = JsonResponse 400 ''Missing file ID''
   \<and> fst (GET host_locked (Some ''18'')) = FileResponse big_image (zip_headers big_image)
   \<and> fst (GET (snd (GET host_locked (Some ''18''))) (Some ''18''))
       = FileResponse big_image (zip_headers big_image)"
  by (simp add: GET_def unlinkSync_def get_eval)

end
